theory Spec2Isabelle
  imports Complex_Main "HOL-Library.Log_Nat"
begin

section \<open>Scheduled-job trigger endpoints (routes/cronRoutes.js)\<close>

text \<open>
  The router exposes five POST endpoints.  Each one runs the middleware
  \<^verbatim>\<open>verifyCronAuth\<close> and then \<^verbatim>\<open>wrap(job)\<close>.  The environment variable
  \<^verbatim>\<open>CRON_SECRET\<close> and the request header \<^verbatim>\<open>x-cron-token\<close> are strings that may
  be absent (\<open>None\<close>).  A job either completes or throws.
\<close>

datatype cron_job =
  RenewalReminders | RejectedCleanup | RenewalFlagReset | ExchangeRefresh | AutoCancel

datatype job_outcome = Completed | Threw

datatype response = Status204 | Status401 | Status404 | Status500

text \<open>JavaScript truthiness of an optional string: absent and empty are falsy.\<close>

definition truthy_str :: "string option \<Rightarrow> bool" where
  "truthy_str v = (case v of None \<Rightarrow> False | Some s \<Rightarrow> s \<noteq> [])"

text \<open>
  \<^verbatim>\<open>verifyCronAuth\<close>: \<open>Some r\<close> is the response sent by the middleware itself,
  \<open>None\<close> is the call of \<^verbatim>\<open>next()\<close>.
\<close>

definition verifyCronAuth :: "string option \<Rightarrow> string option \<Rightarrow> response option" where
  "verifyCronAuth secret token =
     (if truthy_str secret
      then (if token \<noteq> secret then Some Status401 else None)
      else None)"

text \<open>\<^verbatim>\<open>wrap(fn)\<close>: 204 when the job returns, 500 when it throws.\<close>

definition wrap :: "job_outcome \<Rightarrow> response" where
  "wrap r = (case r of Completed \<Rightarrow> Status204 | Threw \<Rightarrow> Status500)"

text \<open>The route table of the router; any other path is not handled by it.\<close>

definition cron_route :: "string \<Rightarrow> cron_job option" where
  "cron_route path =
     (if path = ''/renewal-reminders'' then Some RenewalReminders
      else if path = ''/rejected-cleanup'' then Some RejectedCleanup
      else if path = ''/renewal-flag-reset'' then Some RenewalFlagReset
      else if path = ''/exchange-refresh'' then Some ExchangeRefresh
      else if path = ''/auto-cancel'' then Some AutoCancel
      else None)"

definition cron_post ::
  "string option \<Rightarrow> (cron_job \<Rightarrow> job_outcome) \<Rightarrow> string \<Rightarrow> string option \<Rightarrow> response" where
  "cron_post secret run path token =
     (case cron_route path of
        None \<Rightarrow> Status404
      | Some j \<Rightarrow>
          (case verifyCronAuth secret token of
             Some r \<Rightarrow> r
           | None \<Rightarrow> wrap (run j)))"

text \<open>An environment in which every job completes.\<close>

definition all_jobs_complete :: "cron_job \<Rightarrow> job_outcome" where
  "all_jobs_complete j = Completed"

subsection \<open>Theorems about the trigger endpoints\<close>

lemma cron_route_cases:
  "cron_route path = Some j \<Longrightarrow>
     path \<in> {''/renewal-reminders'', ''/rejected-cleanup'', ''/renewal-flag-reset'',
             ''/exchange-refresh'', ''/auto-cancel''}"
  by (simp add: cron_route_def split: if_splits)

text \<open>
  C5 (as stated, refuted): a request without any token is expected to be
  rejected as Unauthorized.  With \<^verbatim>\<open>CRON_SECRET\<close> unset the guard is skipped
  and the job runs: the request is answered 204.
\<close>

theorem C5_unset_secret_counterexample:
  "cron_post None all_jobs_complete ''/renewal-reminders'' None = Status204"
  by (simp add: cron_post_def cron_route_def verifyCronAuth_def truthy_str_def wrap_def
        all_jobs_complete_def)

text \<open>
  C5 (amended): when \<^verbatim>\<open>CRON_SECRET\<close> is set to a non-empty value, a request to
  any of the five endpoints whose \<^verbatim>\<open>x-cron-token\<close> header is absent or differs
  from it is answered 401 and the job is not run; a request that passes the
  guard (the token equals the secret, or no secret is configured) is
  answered 204 when the job completes and 500 when it throws.
\<close>

theorem C5_cron_trigger_responses:
  assumes "cron_route path = Some j"
  shows "(truthy_str secret \<and> token \<noteq> secret \<longrightarrow>
            cron_post secret run path token = Status401)
       \<and> (\<not> truthy_str secret \<or> token = secret \<longrightarrow>
            cron_post secret run path token =
              (case run j of Completed \<Rightarrow> Status204 | Threw \<Rightarrow> Status500))"
  using assms by (auto simp: cron_post_def verifyCronAuth_def wrap_def)

theorem C5_cron_trigger_responses_witness:
  "cron_route ''/auto-cancel'' = Some AutoCancel
   \<and> truthy_str (Some ''s3cret'') \<and> Some ''guess'' \<noteq> Some ''s3cret''
   \<and> cron_post (Some ''s3cret'') all_jobs_complete ''/auto-cancel'' (Some ''guess'') = Status401
   \<and> cron_post (Some ''s3cret'') all_jobs_complete ''/auto-cancel'' (Some ''s3cret'') = Status204"
proof -
  have r: "cron_route ''/auto-cancel'' = Some AutoCancel"
    by (simp add: cron_route_def)
  have t: "truthy_str (Some ''s3cret'')"
    by (simp add: truthy_str_def)
  show ?thesis
    using r t
      C5_cron_trigger_responses [OF r, of "Some ''s3cret''" "Some ''guess''" all_jobs_complete]
      C5_cron_trigger_responses [OF r, of "Some ''s3cret''" "Some ''s3cret''" all_jobs_complete]
    by (simp add: all_jobs_complete_def)
qed

section \<open>Strings and enum canonicalization (controllers/bulkUploadController.js)\<close>

text \<open>
  Strings are modelled as lists of ASCII characters.  \<^verbatim>\<open>toLowerCase\<close> maps the
  26 capital letters, \<^verbatim>\<open>trim\<close> removes the ASCII white space at both ends.
\<close>

definition lower_char :: "char \<Rightarrow> char" where
  "lower_char c =
     (case map_of (zip ''ABCDEFGHIJKLMNOPQRSTUVWXYZ'' ''abcdefghijklmnopqrstuvwxyz'') c of
        Some d \<Rightarrow> d
      | None \<Rightarrow> c)"

definition toLowerCase :: "string \<Rightarrow> string" where
  "toLowerCase s = map lower_char s"

definition is_space :: "char \<Rightarrow> bool" where
  "is_space c = (c \<in> set [CHR 0x09, CHR 0x0A, CHR 0x0B, CHR 0x0C, CHR 0x0D, CHR '' ''])"

definition trim :: "string \<Rightarrow> string" where
  "trim s = rev (dropWhile is_space (rev (dropWhile is_space s)))"

text \<open>
  A value that the canonicalization can return is a string or, read from an
  object literal under the name of a member that every object inherits from
  \<^verbatim>\<open>Object.prototype\<close>, that member: \<open>JObject name\<close>, a function or an object
  and hence truthy.  Two such members are identical exactly when their names
  are.  \<open>None\<close> is \<^verbatim>\<open>null\<close> or \<^verbatim>\<open>undefined\<close>.
\<close>

datatype js_value = JStr string | JObject string

definition object_prototype_names :: "string list" where
  "object_prototype_names =
     [''constructor'', ''hasOwnProperty'', ''isPrototypeOf'', ''propertyIsEnumerable'',
      ''toLocaleString'', ''toString'', ''valueOf'', ''__proto__'', ''__defineGetter__'',
      ''__defineSetter__'', ''__lookupGetter__'', ''__lookupSetter__'']"

definition truthy_value :: "js_value option \<Rightarrow> bool" where
  "truthy_value v =
     (case v of None \<Rightarrow> False | Some (JStr s) \<Rightarrow> s \<noteq> [] | Some (JObject name) \<Rightarrow> True)"

text \<open>
  The property read \<^verbatim>\<open>map[name]\<close> on an object literal given by its own
  properties: an own property, else an inherited member, else \<^verbatim>\<open>undefined\<close>.
\<close>

definition js_get :: "(string \<times> string) list \<Rightarrow> string \<Rightarrow> js_value option" where
  "js_get obj name =
     (case map_of obj name of
        Some v \<Rightarrow> Some (JStr v)
      | None \<Rightarrow> if name \<in> set object_prototype_names then Some (JObject name) else None)"

text \<open>
  \<^verbatim>\<open>normalizeEnum(value, map, allowedSet)\<close>.  The value is a string (the empty
  string stands for every falsy input), the alias table is an object literal
  given by its own properties.
\<close>

definition normalizeEnum ::
  "string \<Rightarrow> (string \<times> string) list \<Rightarrow> string list \<Rightarrow> js_value option" where
  "normalizeEnum value tbl allowedSet =
     (if value = [] then None
      else
        (let norm = toLowerCase (trim value) in
           if truthy_value (js_get tbl norm) then js_get tbl norm
           else map_option JStr (find (\<lambda>a. toLowerCase a = norm) allowedSet)))"

text \<open>The tables of the upload loop (lines 311 to 383).\<close>

definition typeMap :: "(string \<times> string) list" where
  "typeMap =
     [(''tool & service'', ''Service''), (''tools & service'', ''Service''),
      (''tool & services'', ''Service''), (''tools & services'', ''Service''),
      (''tool'', ''Tool''), (''service'', ''Service''),
      (''google adwords expenses'', ''Google Adwords Expense''),
      (''google adwords expense'', ''Google Adwords Expense'')]"

definition allowedTypes :: "string list" where
  "allowedTypes =
     [''Domain'', ''Google'', ''Google Adwords Expense'', ''Hosting'', ''Proxy'', ''Server'',
      ''Service'', ''Tool'']"

definition costCenterMap :: "(string \<times> string) list" where
  "costCenterMap =
     [(''ops'', ''Ops''), (''oh exps'', ''OH Exps''), (''oh exps.'', ''OH Exps''), (''fe'', ''FE''),
      (''support'', ''Support''), (''management exps'', ''Management EXPS''),
      (''management exps.'', ''Management EXPS'')]"

definition allowedCostCenters :: "string list" where
  "allowedCostCenters = [''Ops'', ''FE'', ''OH Exps'', ''Support'', ''Management EXPS'']"

definition businessUnitMap :: "(string \<times> string) list" where
  "businessUnitMap =
     [(''dws g'', ''DWSG''), (''dwsg'', ''DWSG''), (''signature'', ''Signature''),
      (''collabx'', ''Collabx''), (''wytlabs'', ''Wytlabs''), (''smegoweb'', ''Smegoweb''),
      (''shared'', ''Wytlabs''), (''excel forum'', ''Wytlabs''), (''excel fourm'', ''Wytlabs''),
      (''wytlabs and dws'', ''Wytlabs'')]"

definition allowedBusinessUnits :: "string list" where
  "allowedBusinessUnits = [''DWSG'', ''Signature'', ''Collabx'', ''Wytlabs'', ''Smegoweb'']"

definition statusMap :: "(string \<times> string) list" where
  "statusMap = [(''deactive-nextmonth'', ''Deactive''), (''deactivate-nextmonth'', ''Deactive'')]"

definition allowedStatus :: "string list" where
  "allowedStatus = [''Active'', ''Deactive'', ''Declined'']"

definition approvedByMap :: "(string \<times> string) list" where
  "approvedByMap =
     [(''vaibhav'', ''Vaibhav''), (''marc'', ''Marc''), (''dawood'', ''Dawood''),
      (''raghav'', ''Raghav''), (''tarun'', ''Tarun''), (''yulia'', ''Yulia''),
      (''sarthak'', ''Sarthak''), (''harshit'', ''Harshit''), (''suspense'', ''Tarun'')]"

definition allowedApprovedBy :: "string list" where
  "allowedApprovedBy =
     [''Vaibhav'', ''Marc'', ''Dawood'', ''Raghav'', ''Tarun'', ''Yulia'', ''Sarthak'', ''Harshit'']"

definition normalizeBU :: "string \<Rightarrow> js_value option" where
  "normalizeBU val = normalizeEnum val businessUnitMap allowedBusinessUnits"

subsection \<open>The recurring cadence (lines 437 to 447)\<close>

text \<open>
  The recurring value does not go through \<^verbatim>\<open>normalizeEnum\<close>: the raw cell is the
  first truthy one of four columns read by their exact header, defaulting to
  \<^verbatim>\<open>'One-time'\<close>, and it is used verbatim as a property name of the object
  literal \<^verbatim>\<open>recurringMap\<close>.  A property read on an object literal also finds
  the members inherited from \<^verbatim>\<open>Object.prototype\<close>, which are truthy.
\<close>

fun first_truthy :: "string option list \<Rightarrow> string \<Rightarrow> string" where
  "first_truthy [] d = d"
| "first_truthy (None # cs) d = first_truthy cs d"
| "first_truthy (Some s # cs) d = (if s \<noteq> [] then s else first_truthy cs d)"

definition recurringMap :: "(string \<times> string) list" where
  "recurringMap =
     [(''Recurring_M'', ''Monthly''), (''Recurring_Y'', ''Yearly''), (''OneTime'', ''One-time''),
      (''One Time'', ''One-time''), (''One-time'', ''One-time''), (''Monthly'', ''Monthly''),
      (''Yearly'', ''Yearly'')]"

definition recurring_of :: "string \<Rightarrow> js_value" where
  "recurring_of recurringRaw =
     (case map_of recurringMap recurringRaw of
        Some v \<Rightarrow> if v \<noteq> [] then JStr v else JStr ''One-time''
      | None \<Rightarrow>
          if recurringRaw \<in> set object_prototype_names then JObject recurringRaw
          else JStr ''One-time'')"

text \<open>
  What the specification describes for the recurring value, in its own
  words: lowercase and trim, alias table, then a case-insensitive exact
  match against the canonical members, and One-time when unresolved.
\<close>

definition spec_recurring :: "string \<Rightarrow> string" where
  "spec_recurring raw =
     (case normalizeEnum raw recurringMap [''One-time'', ''Monthly'', ''Yearly''] of
        Some (JStr c) \<Rightarrow> c
      | _ \<Rightarrow> ''One-time'')"

subsection \<open>Theorems about enum canonicalization\<close>

lemma normalizeEnum_business_unit_examples:
  "normalizeBU ''  DWS G '' = Some (JStr ''DWSG'')"
  "normalizeBU ''WYTLABS'' = Some (JStr ''Wytlabs'')"
  "normalizeBU ''Finance'' = None"
  "normalizeBU '' Constructor'' = Some (JObject ''constructor'')"
  "normalizeBU ''toString'' = None"
  by (simp_all add: normalizeBU_def normalizeEnum_def js_get_def truthy_value_def
        object_prototype_names_def businessUnitMap_def allowedBusinessUnits_def
        toLowerCase_def lower_char_def trim_def is_space_def)

text \<open>
  C8 (as stated, refuted): the lower-case spelling \<open>monthly\<close> matches the
  canonical member \<open>Monthly\<close> case-insensitively, and the procedure of the
  specification resolves it to \<open>Monthly\<close>; the code looks the raw value up
  verbatim and yields \<open>One-time\<close>.
\<close>

theorem C8_lowercase_monthly_counterexample:
  "toLowerCase ''Monthly'' = toLowerCase (trim ''monthly'')
   \<and> spec_recurring ''monthly'' = ''Monthly''
   \<and> recurring_of (first_truthy [Some ''monthly'', None, None, None] ''One-time'')
       = JStr ''One-time''"
  by (simp add: spec_recurring_def normalizeEnum_def js_get_def truthy_value_def recurringMap_def
        recurring_of_def object_prototype_names_def toLowerCase_def lower_char_def trim_def
        is_space_def)

text \<open>
  C8 (amended): the raw recurring value is looked up as it is, without
  trimming and case-sensitively, in the alias table; \<open>Recurring_M\<close> and
  \<open>Monthly\<close> give Monthly, \<open>Recurring_Y\<close> and \<open>Yearly\<close> give Yearly, and every
  other value that is not the name of a member inherited from
  \<^verbatim>\<open>Object.prototype\<close> gives the default One-time.
\<close>

theorem C8_recurring_verbatim_lookup:
  assumes "raw \<notin> set object_prototype_names"
  shows "recurring_of raw =
           JStr (if raw = ''Recurring_M'' \<or> raw = ''Monthly'' then ''Monthly''
                 else if raw = ''Recurring_Y'' \<or> raw = ''Yearly'' then ''Yearly''
                 else ''One-time'')"
  using assms by (simp add: recurring_of_def recurringMap_def)

theorem C8_recurring_verbatim_lookup_witness:
  "'' Yearly'' \<notin> set object_prototype_names \<and> recurring_of '' Yearly'' = JStr ''One-time''
   \<and> ''Recurring_Y'' \<notin> set object_prototype_names \<and> recurring_of ''Recurring_Y'' = JStr ''Yearly''"
proof -
  have a: "'' Yearly'' \<notin> set object_prototype_names"
    by (simp add: object_prototype_names_def)
  have b: "''Recurring_Y'' \<notin> set object_prototype_names"
    by (simp add: object_prototype_names_def)
  show ?thesis
    using a b C8_recurring_verbatim_lookup [OF a] C8_recurring_verbatim_lookup [OF b]
    by simp
qed

lemma recurring_of_inherited_member:
  "recurring_of ''constructor'' = JObject ''constructor''"
  by (simp add: recurring_of_def recurringMap_def object_prototype_names_def)

section \<open>Numbers\<close>

text \<open>
  A JavaScript number is an IEEE 754 binary64 value.  A finite one is a
  rational number (the sign of zero, which no comparison or sum below can
  observe, is not kept).  \<open>fl64\<close> rounds a rational to the nearest binary64
  value, ties to the even significand: with \<open>e\<close> the exponent of \<open>x\<close>, that is
  \<open>2 powi e \<le> \<bar>x\<bar> < 2 powi (e + 1)\<close>, the result is the multiple of
  \<open>2 powi (e - 52)\<close> nearest to \<open>x\<close>, and a multiple of \<open>2 powi (- 1074)\<close> below
  the normal range.  The exponent is found from the bit lengths of numerator
  and denominator.
\<close>

definition bit_length_difference :: "rat \<Rightarrow> int" where
  "bit_length_difference x = bitlen (fst (quotient_of x)) - bitlen (snd (quotient_of x))"

definition exponent_of :: "rat \<Rightarrow> int" where
  "exponent_of x =
     (if 2 powi bit_length_difference x \<le> x then bit_length_difference x
      else bit_length_difference x - 1)"

definition round_half_even :: "rat \<Rightarrow> int" where
  "round_half_even r =
     (if r - of_int \<lfloor>r\<rfloor> < 1 / 2 then \<lfloor>r\<rfloor>
      else if 1 / 2 < r - of_int \<lfloor>r\<rfloor> then \<lfloor>r\<rfloor> + 1
      else if even \<lfloor>r\<rfloor> then \<lfloor>r\<rfloor> else \<lfloor>r\<rfloor> + 1)"

definition ulp_exponent :: "rat \<Rightarrow> int" where
  "ulp_exponent x = max (exponent_of x - 52) (- 1074)"

definition fl64_pos :: "rat \<Rightarrow> rat" where
  "fl64_pos x = of_int (round_half_even (x / 2 powi ulp_exponent x)) * 2 powi ulp_exponent x"

definition fl64 :: "rat \<Rightarrow> rat" where
  "fl64 x = (if x = 0 then 0 else if 0 < x then fl64_pos x else - fl64_pos (- x))"

text \<open>
  The numbers with \<^verbatim>\<open>NaN\<close> and the infinities.  A rounded result of magnitude
  \<open>2 ^ 1024\<close>, the \<open>overflow_threshold\<close>, or more overflows to an infinity.
  \<open>js_add\<close> and \<open>js_mul\<close> are the operators \<^verbatim>\<open>+\<close> and \<^verbatim>\<open>*\<close> on numbers, \<open>js_gt\<close>
  and \<open>js_ge\<close> are \<^verbatim>\<open>>\<close> and \<^verbatim>\<open>>=\<close>, which are false whenever an operand is
  \<^verbatim>\<open>NaN\<close>; a number is truthy unless it is \<^verbatim>\<open>NaN\<close> or zero.
\<close>

datatype js_number = NaN | PosInf | NegInf | Fin rat

definition overflow_threshold :: rat where
  "overflow_threshold =
     179769313486231590772930519078902473361797697894230657273430081157732675805500963132708477322407536021120113879871393357658789768814416622492847430639474124377767893424865485276302219601246094119453082952085005768838150682342462881473913110540827237163350510684586298239947245938479716304835356329624224137216"

definition to_js_number :: "rat \<Rightarrow> js_number" where
  "to_js_number r =
     (if overflow_threshold \<le> fl64 r then PosInf
      else if fl64 r \<le> - overflow_threshold then NegInf
      else Fin (fl64 r))"

fun js_add :: "js_number \<Rightarrow> js_number \<Rightarrow> js_number" where
  "js_add (Fin a) (Fin b) = to_js_number (a + b)"
| "js_add NaN b = NaN"
| "js_add a NaN = NaN"
| "js_add PosInf NegInf = NaN"
| "js_add NegInf PosInf = NaN"
| "js_add PosInf b = PosInf"
| "js_add a PosInf = PosInf"
| "js_add NegInf b = NegInf"
| "js_add a NegInf = NegInf"

fun js_sign :: "js_number \<Rightarrow> int" where
  "js_sign NaN = 0"
| "js_sign PosInf = 1"
| "js_sign NegInf = - 1"
| "js_sign (Fin a) = (if a < 0 then - 1 else if a = 0 then 0 else 1)"

fun js_mul :: "js_number \<Rightarrow> js_number \<Rightarrow> js_number" where
  "js_mul (Fin a) (Fin b) = to_js_number (a * b)"
| "js_mul NaN b = NaN"
| "js_mul a NaN = NaN"
| "js_mul a b =
     (if js_sign a * js_sign b = 0 then NaN
      else if 0 < js_sign a * js_sign b then PosInf else NegInf)"

fun js_gt :: "js_number \<Rightarrow> js_number \<Rightarrow> bool" where
  "js_gt (Fin a) (Fin b) = (b < a)"
| "js_gt NaN b = False"
| "js_gt a NaN = False"
| "js_gt a PosInf = False"
| "js_gt NegInf b = False"
| "js_gt PosInf b = True"
| "js_gt a NegInf = True"

definition js_ge :: "js_number \<Rightarrow> js_number \<Rightarrow> bool" where
  "js_ge a b = (a \<noteq> NaN \<and> b \<noteq> NaN \<and> (js_gt a b \<or> a = b))"

definition truthy_num :: "js_number \<Rightarrow> bool" where
  "truthy_num n = (n \<noteq> NaN \<and> n \<noteq> Fin 0)"

text \<open>
  A value handed to \<^verbatim>\<open>Number(v || 0)\<close>, as far as that expression reads it:
  falsy (\<^verbatim>\<open>undefined\<close>, \<^verbatim>\<open>null\<close>, the empty string, zero, \<^verbatim>\<open>NaN\<close>), or truthy
  with the number that \<^verbatim>\<open>Number\<close> makes of it, which is \<^verbatim>\<open>NaN\<close> for a text
  that is not numeric.
\<close>

datatype js_input = Falsy | Truthy js_number

definition number_or_zero :: "js_input \<Rightarrow> js_number" where
  "number_or_zero v = (case v of Falsy \<Rightarrow> Fin 0 | Truthy n \<Rightarrow> n)"

subsection \<open>Theorems about rounding\<close>

lemma powi2_mono: "a \<le> b \<Longrightarrow> (2::rat) powi a \<le> 2 powi b"
  by (rule power_int_increasing) simp_all

lemma powi2_less: "a < b \<Longrightarrow> (2::rat) powi a < 2 powi b"
  by (rule power_int_strict_increasing) simp_all

lemma powi2_less_cancel: "(2::rat) powi a < 2 powi b \<Longrightarrow> a < b"
  using powi2_mono [of b a] by (cases "a < b") auto

lemma powi2_add: "(2::rat) powi (a + b) = 2 powi a * 2 powi b"
  by (simp add: power_int_add)

lemma powi2_diff: "(2::rat) powi (a - b) = 2 powi a / 2 powi b"
  by (simp add: power_int_diff)

lemma powi2_int: "0 \<le> k \<Longrightarrow> (2::rat) powi k = of_int (2 ^ nat k)"
  by (simp add: power_int_def)

lemma bitlen_rat_bounds:
  assumes "0 < n"
  shows "(2::rat) powi (bitlen n - 1) \<le> of_int n" "(of_int n :: rat) < 2 powi bitlen n"
proof -
  have b: "1 \<le> bitlen n"
    using assms bitlen_eq_zero_iff [of n] bitlen_nonneg [of n] by linarith
  have "(2::int) ^ nat (bitlen n - 1) \<le> n" "n < 2 ^ nat (bitlen n)"
    using bitlen_bounds [OF assms] by simp_all
  then have "(of_int ((2::int) ^ nat (bitlen n - 1)) :: rat) \<le> of_int n"
    "(of_int n :: rat) < of_int (2 ^ nat (bitlen n))"
    by (simp_all only: of_int_le_iff of_int_less_iff)
  then show "(2::rat) powi (bitlen n - 1) \<le> of_int n" "(of_int n :: rat) < 2 powi bitlen n"
    using b by (simp_all add: powi2_int)
qed

lemma exponent_of_bounds:
  assumes "0 < x"
  shows "2 powi exponent_of x \<le> x" "x < 2 powi (exponent_of x + 1)"
proof -
  obtain p q where pq: "quotient_of x = (p, q)" by (cases "quotient_of x")
  have q: "0 < q" using pq by (rule quotient_of_denom_pos)
  have x: "x = of_int p / of_int q" using pq by (rule quotient_of_div)
  have p: "0 < p"
    using assms q unfolding x by (simp add: zero_less_divide_iff)
  define k where "k = bitlen p - bitlen q"
  have kd: "bit_length_difference x = k"
    by (simp add: bit_length_difference_def pq k_def)
  note bp = bitlen_rat_bounds [OF p] and bq = bitlen_rat_bounds [OF q]
  have qpos: "(0::rat) < of_int q" using q by simp
  have lo: "2 powi (k - 1) < x"
  proof -
    have "2 powi (k - 1) * (of_int q :: rat) < 2 powi (k - 1) * 2 powi bitlen q"
      using bq(2) by (simp add: mult_strict_left_mono)
    also have "\<dots> = 2 powi (bitlen p - 1)"
      by (simp add: powi2_add [symmetric] k_def)
    also have "\<dots> \<le> of_int p" by (rule bp(1))
    finally show ?thesis
      unfolding x using qpos by (simp add: pos_less_divide_eq)
  qed
  have hi: "x < 2 powi (k + 1)"
  proof -
    have "(of_int p :: rat) < 2 powi bitlen p" by (rule bp(2))
    also have "\<dots> = 2 powi (k + 1) * 2 powi (bitlen q - 1)"
      by (simp add: powi2_add [symmetric] k_def)
    also have "\<dots> \<le> 2 powi (k + 1) * of_int q"
      using bq(1) by (simp add: mult_left_mono)
    finally show ?thesis
      unfolding x using qpos by (simp add: pos_divide_less_eq)
  qed
  show "2 powi exponent_of x \<le> x"
    using lo by (auto simp: exponent_of_def kd)
  show "x < 2 powi (exponent_of x + 1)"
    using hi by (auto simp: exponent_of_def kd not_le)
qed

lemma exponent_of_mono:
  assumes "0 < x" and "x \<le> y"
  shows "exponent_of x \<le> exponent_of y"
proof -
  have "2 powi exponent_of x \<le> x" using assms(1) by (rule exponent_of_bounds)
  also have "x \<le> y" by (rule assms(2))
  also have "y < 2 powi (exponent_of y + 1)"
    using assms by (intro exponent_of_bounds) simp
  finally show ?thesis
    using powi2_less_cancel by fastforce
qed

lemma exponent_of_le:
  assumes "0 < x" and "x < 2 powi k"
  shows "exponent_of x < k"
  using exponent_of_bounds(1) [OF assms(1)] assms(2) powi2_less_cancel [of "exponent_of x" k]
  by simp

lemma exponent_of_ge:
  assumes "0 < x" and "2 powi k \<le> x"
  shows "k \<le> exponent_of x"
  using exponent_of_bounds(2) [OF assms(1)] assms(2) powi2_less_cancel [of k "exponent_of x + 1"]
  by simp

lemma round_half_even_of_int [simp]: "round_half_even (of_int n) = n"
  by (simp add: round_half_even_def)

lemma round_half_even_floor: "\<lfloor>r\<rfloor> \<le> round_half_even r" "round_half_even r \<le> \<lfloor>r\<rfloor> + 1"
  by (simp_all add: round_half_even_def)

lemma round_half_even_mono:
  assumes "a \<le> b"
  shows "round_half_even a \<le> round_half_even b"
proof (cases "\<lfloor>a\<rfloor> = \<lfloor>b\<rfloor>")
  case True
  have "a - of_int \<lfloor>b\<rfloor> \<le> b - of_int \<lfloor>b\<rfloor>" using assms by simp
  then show ?thesis
    unfolding round_half_even_def True by auto
next
  case False
  then have "\<lfloor>a\<rfloor> < \<lfloor>b\<rfloor>"
    using floor_mono [OF assms] by linarith
  then show ?thesis
    using round_half_even_floor(2) [of a] round_half_even_floor(1) [of b] by linarith
qed

lemma round_half_even_le: "r \<le> of_int m \<Longrightarrow> round_half_even r \<le> m"
  using round_half_even_mono [of r "of_int m"] by simp

lemma round_half_even_ge: "of_int m \<le> r \<Longrightarrow> m \<le> round_half_even r"
  using round_half_even_mono [of "of_int m" r] by simp

lemma round_half_even_small: "0 \<le> r \<Longrightarrow> r < 1 / 2 \<Longrightarrow> round_half_even r = 0"
proof -
  assume a: "0 \<le> r" "r < 1 / 2"
  then have "\<lfloor>r\<rfloor> = 0" by (simp add: floor_unique)
  then show ?thesis using a by (simp add: round_half_even_def)
qed

lemma ulp_exponent_mono: "0 < x \<Longrightarrow> x \<le> y \<Longrightarrow> ulp_exponent x \<le> ulp_exponent y"
  using exponent_of_mono [of x y] by (simp add: ulp_exponent_def)

lemma fl64_pos_nonneg: "0 < x \<Longrightarrow> 0 \<le> fl64_pos x"
proof -
  assume "0 < x"
  then have "(of_int 0 :: rat) \<le> x / 2 powi ulp_exponent x" by simp
  then have "0 \<le> round_half_even (x / 2 powi ulp_exponent x)"
    by (rule round_half_even_ge)
  then show ?thesis by (simp add: fl64_pos_def)
qed

lemma fl64_pos_upper:
  assumes "0 < x"
  shows "fl64_pos x \<le> 2 powi (exponent_of x + 1)"
proof -
  define e where "e = exponent_of x"
  define q where "q = ulp_exponent x"
  have u: "(0::rat) < 2 powi q" by simp
  have xq: "x / 2 powi q < 2 powi (e + 1 - q)"
    using exponent_of_bounds(2) [OF assms] u
    by (simp add: powi2_diff e_def divide_strict_right_mono)
  show ?thesis
  proof (cases "0 \<le> e + 1 - q")
    case True
    have "x / 2 powi q \<le> of_int (2 ^ nat (e + 1 - q))"
      using xq powi2_int [OF True] by simp
    then have "round_half_even (x / 2 powi q) \<le> 2 ^ nat (e + 1 - q)"
      by (rule round_half_even_le)
    then have "(of_int (round_half_even (x / 2 powi q)) :: rat) \<le> of_int (2 ^ nat (e + 1 - q))"
      by (simp only: of_int_le_iff)
    then have "(of_int (round_half_even (x / 2 powi q)) :: rat) \<le> 2 powi (e + 1 - q)"
      using powi2_int [OF True] by simp
    then have "of_int (round_half_even (x / 2 powi q)) * 2 powi q \<le> 2 powi (e + 1 - q) * (2::rat) powi q"
      using u by (simp add: mult_right_mono)
    also have "\<dots> = 2 powi (e + 1)"
      by (simp add: powi2_add [symmetric])
    finally show ?thesis
      by (simp add: fl64_pos_def q_def e_def)
  next
    case False
    then have "(2::rat) powi (e + 1 - q) \<le> 2 powi (- 1)"
      by (intro powi2_mono) simp
    moreover have "(2::rat) powi (- 1) = 1 / 2"
      by (simp add: power_int_minus)
    ultimately have "x / 2 powi q < 1 / 2"
      using xq by linarith
    moreover have "0 \<le> x / 2 powi q" using assms by simp
    ultimately have "round_half_even (x / 2 powi q) = 0"
      by (intro round_half_even_small)
    then show ?thesis
      by (simp add: fl64_pos_def q_def)
  qed
qed

lemma fl64_pos_lower:
  assumes "0 < x" and "ulp_exponent x = exponent_of x - 52"
  shows "2 powi exponent_of x \<le> fl64_pos x"
proof -
  define e where "e = exponent_of x"
  define q where "q = ulp_exponent x"
  have u: "(0::rat) < 2 powi q" by simp
  have eq: "e - q = 52" using assms(2) by (simp add: e_def q_def)
  have "2 powi (e - q) \<le> x / 2 powi q"
    using exponent_of_bounds(1) [OF assms(1)] u
    by (simp add: powi2_diff e_def divide_right_mono)
  then have "of_int (2 ^ 52) \<le> x / 2 powi q"
    unfolding eq by simp
  then have "2 ^ 52 \<le> round_half_even (x / 2 powi q)"
    by (rule round_half_even_ge)
  then have "(of_int (2 ^ 52) :: rat) \<le> of_int (round_half_even (x / 2 powi q))"
    by (simp only: of_int_le_iff)
  then have a: "(2::rat) powi (e - q) * 2 powi q \<le> of_int (round_half_even (x / 2 powi q)) * 2 powi q"
    unfolding eq using u by (simp add: mult_right_mono)
  have b: "2 powi (e - q) * (2::rat) powi q = 2 powi e"
    by (simp add: powi2_add [symmetric])
  have "2 powi e \<le> of_int (round_half_even (x / 2 powi q)) * (2::rat) powi q"
    using a unfolding b .
  then show ?thesis
    unfolding fl64_pos_def q_def e_def .
qed

lemma fl64_pos_mono:
  assumes "0 < x" and "x \<le> y"
  shows "fl64_pos x \<le> fl64_pos y"
proof (cases "ulp_exponent x = ulp_exponent y")
  case True
  have "x / 2 powi ulp_exponent y \<le> y / 2 powi ulp_exponent y"
    using assms(2) by (simp add: divide_right_mono)
  then have "round_half_even (x / 2 powi ulp_exponent y) \<le> round_half_even (y / 2 powi ulp_exponent y)"
    by (rule round_half_even_mono)
  then have "(of_int (round_half_even (x / 2 powi ulp_exponent y)) :: rat)
             \<le> of_int (round_half_even (y / 2 powi ulp_exponent y))"
    by (simp only: of_int_le_iff)
  then show ?thesis
    by (simp add: fl64_pos_def True mult_right_mono)
next
  case False
  have y: "0 < y" using assms by simp
  have lt: "ulp_exponent x < ulp_exponent y"
    using False ulp_exponent_mono [OF assms] by simp
  then have n: "ulp_exponent y = exponent_of y - 52" and e: "exponent_of x + 1 \<le> exponent_of y"
    by (auto simp: ulp_exponent_def max_def split: if_splits)
  have "fl64_pos x \<le> 2 powi (exponent_of x + 1)"
    using assms(1) by (rule fl64_pos_upper)
  also have "\<dots> \<le> 2 powi exponent_of y"
    using e by (rule powi2_mono)
  also have "\<dots> \<le> fl64_pos y"
    using y n by (rule fl64_pos_lower)
  finally show ?thesis .
qed

lemma fl64_mono:
  assumes "x \<le> y"
  shows "fl64 x \<le> fl64 y"
proof -
  consider (pp) "0 < x" | (nn) "y < 0" | (np) "x \<le> 0" "0 \<le> y"
    using assms by linarith
  then show ?thesis
  proof cases
    case pp
    then show ?thesis
      using assms fl64_pos_mono [of x y] by (simp add: fl64_def)
  next
    case nn
    then show ?thesis
      using assms fl64_pos_mono [of "- y" "- x"] by (simp add: fl64_def)
  next
    case np
    have "fl64 x \<le> 0"
      using np(1) fl64_pos_nonneg [of "- x"] by (simp add: fl64_def)
    moreover have "0 \<le> fl64 y"
      using np(2) fl64_pos_nonneg [of y] by (simp add: fl64_def)
    ultimately show ?thesis by simp
  qed
qed

lemma fl64_pos_exact:
  assumes "x / 2 powi ulp_exponent x = of_int m"
  shows "fl64_pos x = x"
proof -
  have "fl64_pos x = of_int m * 2 powi ulp_exponent x"
    by (simp add: fl64_pos_def assms)
  also have "\<dots> = x"
    unfolding assms [symmetric] by simp
  finally show ?thesis .
qed

lemma fl64_pos_of_int:
  assumes "0 < k" and "k < 2 ^ 53"
  shows "fl64_pos (of_int k) = of_int k"
proof -
  let ?x = "of_int k :: rat"
  have x: "0 < ?x" using assms(1) by simp
  have "?x < 2 powi 53"
    using assms(2) by (simp add: of_int_less_numeral_power_cancel_iff)
  then have e1: "exponent_of ?x < 53"
    using x by (intro exponent_of_le)
  have "2 powi 0 \<le> ?x" using assms(1) by simp
  then have e0: "0 \<le> exponent_of ?x"
    using x by (intro exponent_of_ge)
  define n where "n = 52 - exponent_of ?x"
  have q: "ulp_exponent ?x = - n" and n: "0 \<le> n"
    using e0 e1 by (simp_all add: ulp_exponent_def n_def)
  have "?x / 2 powi ulp_exponent ?x = ?x * 2 powi n"
    unfolding q by (simp add: power_int_minus field_simps)
  also have "\<dots> = of_int (k * 2 ^ nat n)"
    using powi2_int [OF n] by simp
  finally show ?thesis by (rule fl64_pos_exact)
qed

lemma fl64_of_int:
  assumes "\<bar>k\<bar> \<le> 2 ^ 53"
  shows "fl64 (of_int k) = of_int k"
proof -
  have p: "fl64_pos (of_int j) = of_int j" if "0 < j" "j \<le> 2 ^ 53" for j :: int
  proof (cases "j = 2 ^ 53")
    case True
    have "fl64_pos (2 ^ 53) = 2 ^ 53" by code_simp
    then show ?thesis by (simp add: True)
  next
    case False
    then show ?thesis using that by (intro fl64_pos_of_int) simp_all
  qed
  show ?thesis
    using assms p [of k] p [of "- k"] by (auto simp: fl64_def)
qed

lemma overflow_threshold_power: "overflow_threshold = 2 ^ 1024"
  by (simp add: overflow_threshold_def)

lemma fl64_examples:
  "fl64 (1 / 10) = 3602879701896397 / 36028797018963968"
  "fl64 (10000000000000000 + 1) = 10000000000000000"
  "fl64 (10000000000000001 + 1) = 10000000000000002"
  "fl64 (- 86399 - 1 / 2) = - 86399 - 1 / 2"
  by code_simp+

lemma js_number_examples:
  "js_add (Fin 10000000000000000) (Fin 1) = Fin 10000000000000000"
  "js_add (Fin (3602879701896397 / 36028797018963968)) (Fin (3602879701896397 / 18014398509481984))
     = Fin (5404319552844596 / 18014398509481984)"
  "js_gt (Fin (5404319552844596 / 18014398509481984)) (Fin (5404319552844595 / 18014398509481984))"
  "js_mul (Fin 200) (Fin 83) = Fin 16600"
  "js_mul PosInf (Fin 0) = NaN"
  "js_add PosInf (Fin 1) = PosInf"
  "\<not> js_gt (Fin 350) NaN"
  by code_simp+



section \<open>Dates (controllers/bulkUploadController.js, services/cronJobs.js)\<close>

text \<open>
  A JavaScript \<^verbatim>\<open>Date\<close> is its time value, the number of milliseconds since
  1970-01-01T00:00:00Z, or \<open>None\<close> for an Invalid Date.  The functions below
  follow the ECMAScript definitions of \<^verbatim>\<open>DayFromYear\<close>, \<^verbatim>\<open>MakeDay\<close>,
  \<^verbatim>\<open>TimeClip\<close> and \<^verbatim>\<open>Date.UTC\<close> (which maps the years 0 to 99 to 1900 to
  1999).  Months are numbered from 0.  Local time is taken to be UTC (the
  time zone of the server process unless it is configured otherwise), so the
  local-time methods of \<^verbatim>\<open>Date\<close> coincide with their UTC counterparts.
\<close>

type_synonym js_date = "int option"

definition msPerDay :: int where "msPerDay = 86400000"

definition DayFromYear :: "int \<Rightarrow> int" where
  "DayFromYear y = 365 * (y - 1970) + (y - 1969) div 4 - (y - 1901) div 100 + (y - 1601) div 400"

definition InLeapYear :: "int \<Rightarrow> bool" where
  "InLeapYear y = (y mod 4 = 0 \<and> (y mod 100 \<noteq> 0 \<or> y mod 400 = 0))"

definition month_start :: "int \<Rightarrow> int \<Rightarrow> int" where
  "month_start y mn =
     [0, 31, 59, 90, 120, 151, 181, 212, 243, 273, 304, 334] ! nat mn
       + (if InLeapYear y \<and> 2 \<le> mn then 1 else 0)"

definition MakeDay :: "int \<Rightarrow> int \<Rightarrow> int \<Rightarrow> int" where
  "MakeDay year month date =
     (let ym = year + month div 12; mn = month mod 12
      in DayFromYear ym + month_start ym mn + date - 1)"

definition TimeClip :: "int \<Rightarrow> js_date" where
  "TimeClip t = (if \<bar>t\<bar> \<le> 8640000000000000 then Some t else None)"

definition Date_UTC :: "int \<Rightarrow> int \<Rightarrow> int \<Rightarrow> js_date" where
  "Date_UTC year month date =
     (let yr = (if 0 \<le> year \<and> year \<le> 99 then 1900 + year else year)
      in TimeClip (MakeDay yr month date * msPerDay))"

text \<open>
  The calendar date of a day number: (year, month from 0, day of month), the
  values of \<^verbatim>\<open>getFullYear\<close>, \<^verbatim>\<open>getMonth\<close> and \<^verbatim>\<open>getDate\<close>.
\<close>

definition civil_from_days :: "int \<Rightarrow> int \<times> int \<times> int" where
  "civil_from_days z0 =
     (let z = z0 + 719468;
          era = z div 146097;
          doe = z mod 146097;
          yoe = (doe - doe div 1460 + doe div 36524 - doe div 146096) div 365;
          doy = doe - (365 * yoe + yoe div 4 - yoe div 100);
          mp = (5 * doy + 2) div 153;
          d = doy - (153 * mp + 2) div 5 + 1;
          m = (if mp < 10 then mp + 3 else mp - 9);
          y = yoe + era * 400 + (if m \<le> 2 then 1 else 0)
      in (y, m - 1, d))"

text \<open>
  \<^verbatim>\<open>d.setMonth(d.getMonth() + 1)\<close> and \<^verbatim>\<open>d.setFullYear(d.getFullYear() + 1)\<close> on
  a valid date: the day of the month and the time within the day are kept
  and \<^verbatim>\<open>MakeDay\<close> is applied to the changed month or year, so a day of the
  month that the target month does not have runs over into the next month.
\<close>

definition addOneMonth :: "int \<Rightarrow> js_date" where
  "addOneMonth t =
     (case civil_from_days (t div msPerDay) of
        (y, m, d) \<Rightarrow> TimeClip (MakeDay y (m + 1) d * msPerDay + t mod msPerDay))"

definition addOneYear :: "int \<Rightarrow> js_date" where
  "addOneYear t =
     (case civil_from_days (t div msPerDay) of
        (y, m, d) \<Rightarrow> TimeClip (MakeDay (y + 1) m d * msPerDay + t mod msPerDay))"

text \<open>
  String helpers of the date parser: \<^verbatim>\<open>parseInt(s, 10)\<close> skips leading white
  space, reads an optional sign and the longest run of decimal digits, and is
  \<^verbatim>\<open>NaN\<close> (\<open>None\<close>) when there is no digit; \<^verbatim>\<open>split('-')\<close>; the replacement of
  every slash by a dash; and the test of the regular expression
  \<^verbatim>\<open>/^\d{1,2}-[A-Za-z]{3}-\d{2,4}$/\<close>, whose character classes exclude the dash.
\<close>

definition is_digit :: "char \<Rightarrow> bool" where
  "is_digit c = (c \<in> set ''0123456789'')"

definition is_alpha :: "char \<Rightarrow> bool" where
  "is_alpha c = (c \<in> set ''ABCDEFGHIJKLMNOPQRSTUVWXYZabcdefghijklmnopqrstuvwxyz'')"

definition digit_value :: "char \<Rightarrow> int" where
  "digit_value c =
     (case map_of (zip ''0123456789'' [0, 1, 2, 3, 4, 5, 6, 7, 8, 9]) c of
        Some d \<Rightarrow> d
      | None \<Rightarrow> 0)"

definition digits_value :: "string \<Rightarrow> int" where
  "digits_value ds = foldl (\<lambda>acc c. 10 * acc + digit_value c) 0 ds"

definition parseInt :: "string \<Rightarrow> int option" where
  "parseInt s =
     (let t = dropWhile is_space s;
          neg = (case t of [] \<Rightarrow> False | c # r \<Rightarrow> c = CHR ''-'');
          u = (case t of [] \<Rightarrow> [] | c # r \<Rightarrow> if c = CHR ''-'' \<or> c = CHR ''+'' then r else t);
          ds = takeWhile is_digit u
      in if ds = [] then None
         else Some (if neg then - digits_value ds else digits_value ds))"

fun split_on :: "char \<Rightarrow> string \<Rightarrow> string list" where
  "split_on sep [] = [[]]"
| "split_on sep (c # cs) =
     (if c = sep then [] # split_on sep cs
      else (case split_on sep cs of
              [] \<Rightarrow> [[c]]
            | p # ps \<Rightarrow> (c # p) # ps))"

definition slashes_to_dashes :: "string \<Rightarrow> string" where
  "slashes_to_dashes s = map (\<lambda>c. if c = CHR ''/'' then CHR ''-'' else c) s"

definition matches_dMMMy :: "string \<Rightarrow> bool" where
  "matches_dMMMy s =
     (case split_on CHR ''-'' s of
        [a, b, c] \<Rightarrow>
          (length a = 1 \<or> length a = 2) \<and> list_all is_digit a
          \<and> length b = 3 \<and> list_all is_alpha b
          \<and> 2 \<le> length c \<and> length c \<le> 4 \<and> list_all is_digit c
      | _ \<Rightarrow> False)"

text \<open>
  \<^verbatim>\<open>Math.round\<close> is exact on its argument: the nearest integer, a tie going
  up.  \<^verbatim>\<open>new Date(tv)\<close> on a finite number applies \<^verbatim>\<open>TimeClip\<close>: out of range
  beyond 8.64e15 milliseconds, else the number truncated to an integer.
\<close>

definition js_round :: "rat \<Rightarrow> int" where
  "js_round x = \<lfloor>x + 1 / 2\<rfloor>"

definition new_Date :: "rat \<Rightarrow> js_date" where
  "new_Date tv =
     (if \<bar>tv\<bar> \<le> 8640000000000000 then Some (if 0 \<le> tv then \<lfloor>tv\<rfloor> else \<lceil>tv\<rceil>) else None)"

text \<open>
  \<^verbatim>\<open>excelSerialToDate\<close> on a finite number.  \<^verbatim>\<open>Math.floor\<close> is exact; every
  product, difference and sum is the binary64 one, that is the exact result
  rounded by \<open>fl64\<close>.  A product too large for binary64 is an infinity in the
  code and a number beyond the range of \<^verbatim>\<open>Date\<close> here; both give an Invalid
  Date.
\<close>

definition excelSerialToDate :: "rat \<Rightarrow> js_date" where
  "excelSerialToDate serial =
     (case Date_UTC 1899 11 30 of
        None \<Rightarrow> None
      | Some excelEpoch \<Rightarrow>
          (let days = \<lfloor>serial\<rfloor>;
               milliseconds = fl64 (of_int days * 86400000);
               fractionalDay = fl64 (serial - of_int days);
               seconds = js_round (fl64 (fractionalDay * 86400))
           in new_Date (fl64 (fl64 (of_int excelEpoch + milliseconds)
                              + fl64 (of_int seconds * 1000)))))"

text \<open>The value of the variable \<^verbatim>\<open>seconds\<close> of \<^verbatim>\<open>excelSerialToDate\<close>.\<close>

definition serial_seconds :: "rat \<Rightarrow> int" where
  "serial_seconds serial = js_round (fl64 (fl64 (serial - of_int \<lfloor>serial\<rfloor>) * 86400))"

text \<open>
  A date cell as the reader of the sheet delivers it: nothing, a \<^verbatim>\<open>Date\<close>, a
  finite number, or a string.
\<close>

datatype date_cell = CellEmpty | CellDate js_date | CellNum rat | CellStr string

definition parse_numeric_parts :: "string list \<Rightarrow> js_date option" where
  "parse_numeric_parts parts =
     (case parts of
        [p1, p2, p3raw] \<Rightarrow>
          (let p3 = (if length p3raw = 2 then ''20'' @ p3raw else p3raw) in
             (case (parseInt p1, parseInt p2, parseInt p3) of
                (Some n1, Some n2, Some year) \<Rightarrow>
                  (let (month, day) =
                         (if n1 > 12 then (n2, n1)
                          else if n2 > 12 then (n1, n2)
                          else (n1, n2))
                   in (case Date_UTC year (month - 1) day of
                         Some t \<Rightarrow> Some (Some t)
                       | None \<Rightarrow> None))
              | _ \<Rightarrow> None))
      | _ \<Rightarrow> None)"

definition parseDateValue :: "(string \<Rightarrow> js_date) \<Rightarrow> date_cell \<Rightarrow> js_date option" where
  "parseDateValue native value =
     (case value of
        CellEmpty \<Rightarrow> None
      | CellDate d \<Rightarrow> Some d
      | CellNum n \<Rightarrow> if n = 0 then None else Some (excelSerialToDate n)
      | CellStr v \<Rightarrow>
          if v = [] then None
          else
            (let str = trim v in
               if str = [] then None
               else
                 (case native str of
                    Some t \<Rightarrow> Some (Some t)
                  | None \<Rightarrow>
                      (let normalized = slashes_to_dashes str in
                         (case (if matches_dMMMy normalized then native normalized else None) of
                            Some t \<Rightarrow> Some (Some t)
                          | None \<Rightarrow> parse_numeric_parts (split_on CHR ''-'' normalized))))))"

text \<open>A native parser that accepts nothing, for evaluating the fallback branch.\<close>

definition no_native :: "string \<Rightarrow> js_date" where
  "no_native s = None"

text \<open>
  Re-encoding of a time value as a spreadsheet serial: the number of days,
  with fraction, since 1899-12-30T00:00:00Z.  The whole part is the calendar
  day of the serial.
\<close>

definition dateToExcelSerial :: "int \<Rightarrow> rat" where
  "dateToExcelSerial t = of_int (t + 2209161600000) / 86400000"

subsection \<open>Theorems about dates\<close>

lemma civil_from_days_examples:
  "civil_from_days 0 = (1970, 0, 1)"
  "civil_from_days (- 1) = (1969, 11, 31)"
  "civil_from_days (MakeDay 1899 11 30) = (1899, 11, 30)"
  "civil_from_days (MakeDay 2000 1 29) = (2000, 1, 29)"
  "civil_from_days (MakeDay 2024 1 29) = (2024, 1, 29)"
  "civil_from_days (MakeDay 2025 0 31) = (2025, 0, 31)"
  "civil_from_days (MakeDay 2025 11 31) = (2025, 11, 31)"
  "civil_from_days (MakeDay 2100 2 1) = (2100, 2, 1)"
  by code_simp+

lemma addOneMonth_examples:
  "Date_UTC 2025 0 15 = Some 1736899200000"
  "addOneMonth 1736899200000 = Date_UTC 2025 1 15"
  "addOneMonth 1735603200000 = Date_UTC 2025 0 31"
  "addOneYear 1736899200000 = Date_UTC 2026 0 15"
  by code_simp+

lemma alpha_not: "is_alpha c \<Longrightarrow> \<not> is_space c \<and> \<not> is_digit c \<and> c \<noteq> CHR ''-'' \<and> c \<noteq> CHR ''+''"
  by (auto simp: is_alpha_def is_space_def is_digit_def)

lemma parseInt_alpha: "list_all is_alpha b \<Longrightarrow> parseInt b = None"
  by (cases b) (auto simp: parseInt_def Let_def dest: alpha_not)

lemma not_dMMMy: "split_on CHR ''-'' s = [p1, p2, p3] \<Longrightarrow> parseInt p2 = Some n \<Longrightarrow> \<not> matches_dMMMy s"
  by (auto simp: matches_dMMMy_def dest: parseInt_alpha)

lemma excelEpoch_value: "Date_UTC 1899 11 30 = Some (- 2209161600000)"
  by (simp add: Date_UTC_def MakeDay_def DayFromYear_def month_start_def InLeapYear_def
        TimeClip_def msPerDay_def)

lemma trim_Nil: "trim [] = []"
  by (simp add: trim_def)

lemma parseDateValue_numeric_parts:
  assumes "trim v \<noteq> []" and "native (trim v) = None"
    and "split_on CHR ''-'' (slashes_to_dashes (trim v)) = [p1, p2, p3]"
    and "parseInt p2 = Some n2"
  shows "parseDateValue native (CellStr v) = parse_numeric_parts [p1, p2, p3]"
proof -
  have "v \<noteq> []" using assms(1) trim_Nil by auto
  moreover have "\<not> matches_dMMMy (slashes_to_dashes (trim v))"
    using assms(3,4) by (rule not_dMMMy)
  ultimately show ?thesis
    using assms(1,2,3) by (simp add: parseDateValue_def Let_def)
qed

lemma digit_not_space: "is_digit c \<Longrightarrow> \<not> is_space c \<and> c \<noteq> CHR ''-'' \<and> c \<noteq> CHR ''+''"
  by (auto simp: is_space_def is_digit_def)

lemma parseInt_two_digit_year:
  assumes "length p3 = 2" and "list_all is_digit p3"
  shows "parseInt (''20'' @ p3) = Some (2000 + digits_value p3)"
proof -
  obtain a b where p3: "p3 = [a, b]"
    using assms(1) by (cases p3; cases "tl p3") auto
  have d: "is_digit a" "is_digit b" using assms(2) p3 by auto
  have z: "is_digit CHR ''2''" "is_digit CHR ''0''" "\<not> is_space CHR ''2''"
    by (simp_all add: is_digit_def is_space_def)
  have v: "digit_value CHR ''2'' = 2" "digit_value CHR ''0'' = 0"
    by (simp_all add: digit_value_def)
  show ?thesis
    using d z v by (simp add: p3 parseInt_def Let_def digits_value_def)
qed

text \<open>
  C6: a string that the native parser rejects and that splits on dashes and
  slashes into exactly three parts that \<^verbatim>\<open>parseInt\<close> reads, where a third part
  of length two is first prefixed with \<open>20\<close>, is resolved as day-month-year when
  the first number exceeds 12, as month-day-year when the second number
  exceeds 12, and as month-day-year otherwise; the result is the date
  \<^verbatim>\<open>Date.UTC(year, month - 1, day)\<close>, or \<^verbatim>\<open>null\<close> when that is outside the
  range of time values.
\<close>

theorem C6_numeric_date_parts:
  assumes "trim v \<noteq> []" and "native (trim v) = None"
    and "split_on CHR ''-'' (slashes_to_dashes (trim v)) = [p1, p2, p3]"
    and "parseInt p1 = Some n1" and "parseInt p2 = Some n2"
    and "parseInt (if length p3 = 2 then ''20'' @ p3 else p3) = Some year"
  shows "(12 < n1 \<longrightarrow>
            parseDateValue native (CellStr v) = map_option Some (Date_UTC year (n2 - 1) n1))
       \<and> (n1 \<le> 12 \<and> 12 < n2 \<longrightarrow>
            parseDateValue native (CellStr v) = map_option Some (Date_UTC year (n1 - 1) n2))
       \<and> (n1 \<le> 12 \<and> n2 \<le> 12 \<longrightarrow>
            parseDateValue native (CellStr v) = map_option Some (Date_UTC year (n1 - 1) n2))"
proof -
  have "parseDateValue native (CellStr v) = parse_numeric_parts [p1, p2, p3]"
    using assms(1,2,3,5) by (rule parseDateValue_numeric_parts)
  then show ?thesis
    using assms(4,5,6)
    by (auto simp: parse_numeric_parts_def Let_def split: option.splits)
qed

theorem C6_numeric_date_parts_witness:
  "parseDateValue no_native (CellStr ''13/05/24'') = Some (Some 1715558400000)
   \<and> parseDateValue no_native (CellStr ''05-13-2024'') = Some (Some 1715558400000)
   \<and> parseDateValue no_native (CellStr '' 3-4-2024 '') = Some (Some 1709510400000)"
proof -
  have n: "\<And>s. no_native s = None"
    by (simp add: no_native_def)
  have t: "trim ''13/05/24'' = ''13/05/24''" "trim ''05-13-2024'' = ''05-13-2024''"
    "trim '' 3-4-2024 '' = ''3-4-2024''"
    by (simp_all add: trim_def is_space_def)
  have s: "split_on CHR ''-'' (slashes_to_dashes ''13/05/24'') = [''13'', ''05'', ''24'']"
    "split_on CHR ''-'' (slashes_to_dashes ''05-13-2024'') = [''05'', ''13'', ''2024'']"
    "split_on CHR ''-'' (slashes_to_dashes ''3-4-2024'') = [''3'', ''4'', ''2024'']"
    by (simp_all add: slashes_to_dashes_def)
  have p: "parseInt ''13'' = Some 13" "parseInt ''05'' = Some 5" "parseInt ''3'' = Some 3"
    "parseInt ''4'' = Some 4" "parseInt ''2024'' = Some 2024"
    by (simp_all add: parseInt_def is_space_def is_digit_def digits_value_def digit_value_def)
  have d: "Date_UTC 2024 4 13 = Some 1715558400000" "Date_UTC 2024 2 4 = Some 1709510400000"
    by (simp_all add: Date_UTC_def MakeDay_def DayFromYear_def month_start_def InLeapYear_def
          TimeClip_def msPerDay_def)
  have a: "parseDateValue no_native (CellStr ''13/05/24'') = Some (Some 1715558400000)"
    using C6_numeric_date_parts [of "''13/05/24''" no_native "''13''" "''05''" "''24''" 13 5 2024]
    by (simp add: n t s p d)
  have b: "parseDateValue no_native (CellStr ''05-13-2024'') = Some (Some 1715558400000)"
    using C6_numeric_date_parts [of "''05-13-2024''" no_native "''05''" "''13''" "''2024''" 5 13 2024]
    by (simp add: n t s p d)
  have c: "parseDateValue no_native (CellStr '' 3-4-2024 '') = Some (Some 1709510400000)"
    using C6_numeric_date_parts [of "'' 3-4-2024 ''" no_native "''3''" "''4''" "''2024''" 3 4 2024]
    by (simp add: n t s p d)
  show ?thesis using a b c by simp
qed

lemma fl64_small_values: "fl64 0 = 0" "fl64 1 = 1" "fl64 86400 = 86400"
  using fl64_of_int [of 0] fl64_of_int [of 1] fl64_of_int [of 86400] by simp_all

lemma serial_seconds_bounds: "0 \<le> serial_seconds s" "serial_seconds s \<le> 86400"
proof -
  define f where "f = fl64 (s - of_int \<lfloor>s\<rfloor>)"
  define g where "g = fl64 (f * 86400)"
  have "0 \<le> s - of_int \<lfloor>s\<rfloor>" "s - of_int \<lfloor>s\<rfloor> \<le> 1"
    by linarith+
  then have "fl64 0 \<le> f" "f \<le> fl64 1"
    unfolding f_def by (simp_all add: fl64_mono)
  then have f: "0 \<le> f" "f \<le> 1"
    by (simp_all add: fl64_small_values)
  then have "0 \<le> f * 86400" "f * 86400 \<le> 86400"
    by simp_all
  then have "fl64 0 \<le> g" "g \<le> fl64 86400"
    unfolding g_def by (simp_all add: fl64_mono)
  then have g: "0 \<le> g" "g \<le> 86400"
    by (simp_all add: fl64_small_values)
  have s: "serial_seconds s = \<lfloor>g + 1 / 2\<rfloor>"
    by (simp add: serial_seconds_def js_round_def g_def f_def)
  show "0 \<le> serial_seconds s"
    unfolding s using g(1) by simp
  have "g + 1 / 2 < 86401" using g(2) by simp
  then have "\<lfloor>g + 1 / 2\<rfloor> < 86401" by (simp add: floor_less_iff)
  then show "serial_seconds s \<le> 86400"
    unfolding s by simp
qed

lemma new_Date_of_int: "new_Date (of_int t) = TimeClip t"
proof -
  have "\<bar>of_int t :: rat\<bar> \<le> 8640000000000000 \<longleftrightarrow> \<bar>t\<bar> \<le> 8640000000000000"
    by linarith
  then show ?thesis
    by (simp add: new_Date_def TimeClip_def)
qed

lemma fl64_ge_int:
  assumes "\<bar>k\<bar> \<le> 2 ^ 53" and "of_int k \<le> x"
  shows "of_int k \<le> fl64 x"
  using fl64_mono [OF assms(2)] fl64_of_int [OF assms(1)] by simp

lemma fl64_le_int:
  assumes "\<bar>k\<bar> \<le> 2 ^ 53" and "x \<le> of_int k"
  shows "fl64 x \<le> of_int k"
  using fl64_mono [OF assms(2)] fl64_of_int [OF assms(1)] by simp

lemma excelSerialToDate_exact:
  "excelSerialToDate s =
     TimeClip (- 2209161600000 + \<lfloor>s\<rfloor> * 86400000 + serial_seconds s * 1000)"
proof -
  define d where "d = \<lfloor>s\<rfloor>"
  define sec where "sec = serial_seconds s"
  define ms where "ms = fl64 (of_int d * 86400000)"
  define a where "a = fl64 (of_int (- 2209161600000) + ms)"
  define b where "b = fl64 (a + fl64 (of_int sec * 1000))"
  have conv: "excelSerialToDate s = new_Date b"
    by (simp add: excelSerialToDate_def excelEpoch_value Let_def serial_seconds_def
          d_def sec_def ms_def a_def b_def)
  have sec: "0 \<le> sec" "sec \<le> 86400"
    unfolding sec_def by (rule serial_seconds_bounds)+
  have "fl64 (of_int (sec * 1000)) = of_int (sec * 1000)"
    using sec by (intro fl64_of_int) simp
  then have secx: "fl64 (of_int sec * 1000) = of_int sec * 1000"
    by simp
  have sec_r: "(0::rat) \<le> of_int sec * 1000" "(of_int sec :: rat) * 1000 \<le> 86400000"
    using sec by simp_all
  consider (mid) "\<bar>d\<bar> \<le> 100030000" | (hi) "100030001 \<le> d" | (lo) "d \<le> - 100030001"
    by linarith
  then show ?thesis
  proof cases
    case mid
    have "fl64 (of_int (d * 86400000)) = of_int (d * 86400000)"
      using mid by (intro fl64_of_int) simp
    then have ms: "ms = of_int (d * 86400000)"
      by (simp add: ms_def)
    have "fl64 (of_int (- 2209161600000 + d * 86400000)) = of_int (- 2209161600000 + d * 86400000)"
      using mid by (intro fl64_of_int) simp
    then have a: "a = of_int (- 2209161600000 + d * 86400000)"
      by (simp add: a_def ms)
    have "fl64 (of_int (- 2209161600000 + d * 86400000 + sec * 1000))
          = of_int (- 2209161600000 + d * 86400000 + sec * 1000)"
      using mid sec by (intro fl64_of_int) simp
    then have "b = of_int (- 2209161600000 + d * 86400000 + sec * 1000)"
      by (simp add: b_def a secx)
    then show ?thesis
      unfolding conv by (simp only: new_Date_of_int d_def sec_def)
  next
    case hi
    have "(of_int 8642592086400000 :: rat) \<le> of_int d * 86400000"
      using hi by simp
    then have "of_int 8642592086400000 \<le> ms"
      unfolding ms_def by (intro fl64_ge_int) simp_all
    then have "(of_int 8640382924800000 :: rat) \<le> of_int (- 2209161600000) + ms"
      by simp
    then have "of_int 8640382924800000 \<le> a"
      unfolding a_def by (intro fl64_ge_int) simp_all
    then have "(of_int 8640382924800000 :: rat) \<le> a + fl64 (of_int sec * 1000)"
      using sec_r by (simp add: secx)
    then have "of_int 8640382924800000 \<le> b"
      unfolding b_def by (intro fl64_ge_int) simp_all
    then have "new_Date b = None"
      by (simp add: new_Date_def)
    moreover have "TimeClip (- 2209161600000 + d * 86400000 + sec * 1000) = None"
      using hi sec by (simp add: TimeClip_def)
    ultimately show ?thesis
      unfolding conv by (simp only: d_def sec_def)
  next
    case lo
    have "of_int d * 86400000 \<le> (of_int (- 8642592086400000) :: rat)"
      using lo by simp
    then have "ms \<le> of_int (- 8642592086400000)"
      unfolding ms_def by (intro fl64_le_int) simp_all
    then have "of_int (- 2209161600000) + ms \<le> (of_int (- 8644801248000000) :: rat)"
      by simp
    then have "a \<le> of_int (- 8644801248000000)"
      unfolding a_def by (intro fl64_le_int) simp_all
    then have "a + fl64 (of_int sec * 1000) \<le> (of_int (- 8644801161600000) :: rat)"
      using sec_r by (simp add: secx)
    then have "b \<le> of_int (- 8644801161600000)"
      unfolding b_def by (intro fl64_le_int) simp_all
    then have "new_Date b = None"
      by (simp add: new_Date_def)
    moreover have "TimeClip (- 2209161600000 + d * 86400000 + sec * 1000) = None"
      using lo sec by (simp add: TimeClip_def)
    ultimately show ?thesis
      unfolding conv by (simp only: d_def sec_def)
  qed
qed

lemma reencoded_serial:
  "dateToExcelSerial (- 2209161600000 + d * 86400000 + sec * 1000) = of_int d + of_int sec / 86400"
  by (simp add: dateToExcelSerial_def field_simps)

lemma js_round_bounds: "of_int (js_round x) \<le> x + 1 / 2" "x - 1 / 2 < of_int (js_round x)"
  unfolding js_round_def by linarith+

text \<open>
  C7 (as stated, refuted): the binary64 value nearest to 45000.999999 lies on
  day 45000 (15 March 2023); its fraction is rounded to 86400 seconds, and
  the resulting date is midnight of 16 March 2023, whose serial is 45001.
\<close>

theorem C7_last_half_second_counterexample:
  "fl64 (45000 + 999999 / 1000000) = 6184890345056033 / 137438953472
   \<and> excelSerialToDate (6184890345056033 / 137438953472) = Some 1678924800000
   \<and> \<lfloor>dateToExcelSerial 1678924800000\<rfloor> = 45001
   \<and> \<lfloor>6184890345056033 / 137438953472 :: rat\<rfloor> = 45000"
proof -
  have a: "fl64 (45000 + 999999 / 1000000) = 6184890345056033 / 137438953472"
    by code_simp
  have b: "excelSerialToDate (6184890345056033 / 137438953472) = Some 1678924800000"
    by code_simp
  have c: "\<lfloor>dateToExcelSerial 1678924800000\<rfloor> = 45001"
    by code_simp
  have d: "\<lfloor>6184890345056033 / 137438953472 :: rat\<rfloor> = 45000"
    by code_simp
  show ?thesis using a b c d by simp
qed

text \<open>
  C7 (amended): the epoch is 1899-12-30T00:00:00Z; for every serial the
  seconds are the binary64 product of the binary64 remainder of the serial
  and 86400, rounded to the nearest integer, a count from 0 to 86400; the
  date is the epoch plus the whole days plus these seconds, or an Invalid
  Date when that is out of range (the resolver hands every number other than
  0 to this conversion); re-encoding a resulting date gives a serial on the
  same day whenever the seconds are fewer than 86400, and exactly the start
  of the following day when they are 86400.
\<close>

theorem C7_serial_day_count:
  "Date_UTC 1899 11 30 = Some (- 2209161600000)
   \<and> serial_seconds serial = js_round (fl64 (fl64 (serial - of_int \<lfloor>serial\<rfloor>) * 86400))
   \<and> \<bar>of_int (serial_seconds serial) - fl64 (fl64 (serial - of_int \<lfloor>serial\<rfloor>) * 86400)\<bar> \<le> 1 / 2
   \<and> 0 \<le> serial_seconds serial \<and> serial_seconds serial \<le> 86400
   \<and> excelSerialToDate serial =
         TimeClip (- 2209161600000 + \<lfloor>serial\<rfloor> * 86400000 + serial_seconds serial * 1000)
   \<and> (serial \<noteq> 0 \<longrightarrow>
         parseDateValue native (CellNum serial) = Some (excelSerialToDate serial))
   \<and> (\<forall>t. excelSerialToDate serial = Some t \<longrightarrow>
         (serial_seconds serial < 86400 \<longrightarrow> \<lfloor>dateToExcelSerial t\<rfloor> = \<lfloor>serial\<rfloor>)
         \<and> (serial_seconds serial = 86400 \<longrightarrow>
              dateToExcelSerial t = of_int \<lfloor>serial\<rfloor> + 1))"
proof -
  define d where "d = \<lfloor>serial\<rfloor>"
  define sec where "sec = serial_seconds serial"
  have pd: "serial \<noteq> 0 \<longrightarrow>
            parseDateValue native (CellNum serial) = Some (excelSerialToDate serial)"
    by (simp add: parseDateValue_def)
  have sd: "sec = js_round (fl64 (fl64 (serial - of_int d) * 86400))"
    by (simp add: sec_def serial_seconds_def d_def)
  have near: "\<bar>of_int sec - fl64 (fl64 (serial - of_int d) * 86400)\<bar> \<le> 1 / 2"
    using js_round_bounds [of "fl64 (fl64 (serial - of_int d) * 86400)"] unfolding sd by linarith
  have s0: "0 \<le> sec" and s1: "sec \<le> 86400"
    unfolding sec_def by (rule serial_seconds_bounds)+
  have conv: "excelSerialToDate serial =
                TimeClip (- 2209161600000 + d * 86400000 + sec * 1000)"
    unfolding d_def sec_def by (rule excelSerialToDate_exact)
  have rt: "(sec < 86400 \<longrightarrow> \<lfloor>dateToExcelSerial t\<rfloor> = d)
            \<and> (sec = 86400 \<longrightarrow> dateToExcelSerial t = of_int d + 1)"
    if "excelSerialToDate serial = Some t" for t
  proof -
    have t: "t = - 2209161600000 + d * 86400000 + sec * 1000"
      using that conv by (simp add: TimeClip_def split: if_splits)
    have ser: "dateToExcelSerial t = of_int d + of_int sec / 86400"
      unfolding t by (rule reencoded_serial)
    have same: "\<lfloor>dateToExcelSerial t\<rfloor> = d" if "sec < 86400"
    proof -
      have "0 \<le> (of_int sec :: rat) / 86400" "(of_int sec :: rat) / 86400 < 1"
        using s0 that by simp_all
      then show ?thesis
        unfolding ser by (simp add: floor_unique)
    qed
    have "dateToExcelSerial t = of_int d + 1" if "sec = 86400"
      unfolding ser by (simp add: that)
    then show ?thesis using same by blast
  qed
  show ?thesis
    using excelEpoch_value sd near s0 s1 conv pd rt unfolding d_def sec_def by blast
qed

theorem C7_serial_day_count_witness:
  "(45000 + 1 / 2 :: rat) \<noteq> 0
   \<and> serial_seconds (45000 + 1 / 2) = 43200
   \<and> excelSerialToDate (45000 + 1 / 2) = Some 1678881600000
   \<and> parseDateValue no_native (CellNum (45000 + 1 / 2)) = Some (Some 1678881600000)
   \<and> \<lfloor>dateToExcelSerial 1678881600000\<rfloor> = \<lfloor>45000 + 1 / 2 :: rat\<rfloor>
   \<and> serial_seconds (2 - 1 / 1048576) = 86400
   \<and> excelSerialToDate (2 - 1 / 1048576) = Some (- 2208988800000)
   \<and> dateToExcelSerial (- 2208988800000) = of_int \<lfloor>2 - 1 / 1048576 :: rat\<rfloor> + 1"
proof -
  have z: "(45000 + 1 / 2 :: rat) \<noteq> 0"
    by simp
  have s: "serial_seconds (45000 + 1 / 2) = 43200" "serial_seconds (2 - 1 / 1048576) = 86400"
    by code_simp+
  have e: "excelSerialToDate (45000 + 1 / 2) = Some 1678881600000"
    "excelSerialToDate (2 - 1 / 1048576) = Some (- 2208988800000)"
    by code_simp+
  show ?thesis
    using z s e
      C7_serial_day_count [where serial = "45000 + 1 / 2" and native = no_native]
      C7_serial_day_count [where serial = "2 - 1 / 1048576" and native = no_native]
    by simp
qed

lemma excelSerialToDate_examples:
  "excelSerialToDate (- 3416063717353621 / 590295810358705651712) = Some (- 2209161600000)"
  "\<lfloor>- 3416063717353621 / 590295810358705651712 :: rat\<rfloor> = - 1"
  "serial_seconds (- 3416063717353621 / 590295810358705651712) = 86400"
  "excelSerialToDate (6832127434707241 / 1180591620717411303424) = Some (- 2209161599000)"
  "excelSerialToDate (1 / 4) = Some (- 2209140000000)"
  "excelSerialToDate (- 3 / 2) = Some (- 2209291200000)"
  "excelSerialToDate 100000000 = Some 8637790838400000"
  "excelSerialToDate 100030000 = None"
  by code_simp+

section \<open>Shared allocations (controllers/expenseController.js, bulkUploadController.js)\<close>

text \<open>
  An allocation holds the business unit as the code has it (a string, an
  inherited member, or nothing) and its amount, a number.  In
  \<^verbatim>\<open>validateSharedAllocations\<close> an item of the request is the pair of its
  \<^verbatim>\<open>businessUnit\<close> and of \<^verbatim>\<open>Number(item.amount)\<close>, and \<^verbatim>\<open>Number(item.amount) || 0\<close>
  replaces a number that is not truthy by 0.  The function throws on an
  excessive total, which is the result \<open>Inl AllocationExceedsTotal\<close>; its two
  callers are modelled with the entries below.  The total is the \<^verbatim>\<open>reduce\<close>
  of the binary64 sum from 0, in the order of the list, and it is compared
  with \<^verbatim>\<open>Number(totalAmount || 0)\<close>.
\<close>

record allocation =
  sa_businessUnit :: "js_value option"
  sa_amount :: js_number

definition total_allocated :: "allocation list \<Rightarrow> js_number" where
  "total_allocated items = foldl (\<lambda>sum item. js_add sum (sa_amount item)) (Fin 0) items"

datatype validation_error = AllocationExceedsTotal

definition cleaned_allocations :: "(js_value option \<times> js_number) list \<Rightarrow> allocation list" where
  "cleaned_allocations sharedAllocations =
     filter (\<lambda>item. truthy_value (sa_businessUnit item) \<and> js_gt (sa_amount item) (Fin 0))
       (map (\<lambda>(bu, amt). \<lparr>sa_businessUnit = bu,
                            sa_amount = (if truthy_num amt then amt else Fin 0)\<rparr>)
          sharedAllocations)"

text \<open>
  Both validations make sure that the primary business unit is in the list
  (lines 19 to 22 of the controller, lines 459 to 462 of the upload): it is
  appended with amount 0 unless some item has that very business unit.
\<close>

definition with_primary :: "allocation list \<Rightarrow> js_value option \<Rightarrow> allocation list" where
  "with_primary allocations primaryBU =
     (let hasPrimary = list_ex (\<lambda>item. sa_businessUnit item = primaryBU) allocations
      in if \<not> hasPrimary
         then allocations @ [\<lparr>sa_businessUnit = primaryBU, sa_amount = Fin 0\<rparr>]
         else allocations)"

definition validateSharedAllocations ::
  "bool \<Rightarrow> (js_value option \<times> js_number) list \<Rightarrow> js_input \<Rightarrow> js_value option
     \<Rightarrow> validation_error + (bool \<times> allocation list)" where
  "validateSharedAllocations isShared sharedAllocations totalAmount primaryBU =
     (if \<not> isShared then Inr (False, [])
      else
        (let cleaned = with_primary (cleaned_allocations sharedAllocations) primaryBU;
             total = total_allocated cleaned
         in if js_gt total (number_or_zero totalAmount)
            then Inl AllocationExceedsTotal
            else Inr (True, cleaned)))"

text \<open>
  \<^verbatim>\<open>parseBoolean\<close> reads the text of the flag cell (\<open>None\<close> when the cell is
  absent).  \<^verbatim>\<open>parseSharedAllocations\<close> receives the items that the JSON
  decoding, or the splitting of the free text into label and number,
  extracts: a label and a number (\<^verbatim>\<open>NaN\<close> when none is read).  Both branches
  keep an item when the label normalizes to a truthy business unit and the
  number is positive.
\<close>

definition parseBoolean :: "string option \<Rightarrow> bool" where
  "parseBoolean value =
     (case value of
        None \<Rightarrow> False
      | Some v \<Rightarrow>
          (let norm = toLowerCase (trim v)
           in if norm = [] then False
              else norm \<in> set [''true'', ''yes'', ''y'', ''1'', ''shared'', ''checked'']))"

definition parseSharedAllocations :: "(string \<times> js_number) list \<Rightarrow> allocation list" where
  "parseSharedAllocations raw =
     List.map_filter
       (\<lambda>(label, amt).
          if truthy_value (normalizeBU label) \<and> js_gt amt (Fin 0)
          then Some \<lparr>sa_businessUnit = normalizeBU label, sa_amount = amt\<rparr>
          else None)
       raw"

text \<open>Lines 455 to 482 of the upload loop; \<open>Inl\<close> is the message of the failed row.\<close>

definition upload_shared ::
  "bool \<Rightarrow> allocation list \<Rightarrow> js_value option \<Rightarrow> js_number
     \<Rightarrow> string + (bool \<times> allocation list)" where
  "upload_shared isShared sharedAllocations businessUnit amount =
     (if isShared
      then
        (let sharedAllocations = with_primary sharedAllocations businessUnit;
             totalShared = total_allocated sharedAllocations
         in if js_gt totalShared amount
            then Inl ''Shared allocations exceed total amount''
            else
              (let sharedAllocations =
                     filter (\<lambda>item. truthy_value (sa_businessUnit item) \<and> sa_amount item \<noteq> NaN
                                    \<and> js_ge (sa_amount item) (Fin 0))
                       sharedAllocations
               in Inr (sharedAllocations \<noteq> [], sharedAllocations)))
      else Inr (False, []))"


section \<open>Ingestion of expense entries (controllers/bulkUploadController.js, expenseController.js)\<close>

text \<open>
  A persisted expense entry, with the fields that the upload passes to
  \<^verbatim>\<open>create\<close>, each as the upload computes it, and the two flags that the jobs
  query and set.  \<open>eid\<close> is the \<^verbatim>\<open>_id\<close> of the document.
\<close>

record entry =
  eid :: nat
  cardNumber :: string
  cardAssignedTo :: string
  date :: int
  month :: string
  status :: js_value
  particulars :: string
  narration :: string
  currency :: string
  billStatus :: string
  amount :: js_number
  xeRate :: js_number
  amountInINR :: js_number
  typeOfService :: "js_value option"
  businessUnit :: "js_value option"
  costCenter :: "js_value option"
  approvedBy :: "js_value option"
  serviceHandler :: string
  recurring :: js_value
  entryStatus :: string
  duplicateStatus :: "string option"
  createdBy :: nat
  nextRenewalDate :: js_date
  isShared :: bool
  sharedAllocations :: "allocation list"
  renewalNotificationSent :: bool
  autoCancellationNotificationSent :: bool

text \<open>
  A row of the uploaded sheet after field resolution: for every canonical
  field the text of the cell found by \<^verbatim>\<open>getField\<close> (\<open>None\<close> when no alias is
  present), the date cell as the parser left it, the numbers that
  \<^verbatim>\<open>parseFloat\<close> reads from the amount, rate and INR cells (\<^verbatim>\<open>NaN\<close> when the
  cell is absent or not numeric), the four recurring cells in the order they
  are tried, and the allocation items.
\<close>

record raw_row =
  raw_cardNumber :: "string option"
  raw_cardAssignedTo :: "string option"
  raw_date :: date_cell
  raw_month :: "string option"
  raw_status :: "string option"
  raw_particulars :: "string option"
  raw_narration :: "string option"
  raw_currency :: "string option"
  raw_billStatus :: "string option"
  raw_amount :: js_number
  raw_typeOfService :: "string option"
  raw_businessUnit :: "string option"
  raw_costCenter :: "string option"
  raw_approvedBy :: "string option"
  raw_serviceHandler :: "string option"
  raw_recurring :: "string option list"
  raw_isShared :: "string option"
  raw_sharedAlloc :: "(string \<times> js_number) list"
  raw_xe :: js_number
  raw_amtINR :: js_number

text \<open>
  The collaborators of the upload: the native date parser, the currency
  service (\<open>Inl\<close> is the message of a rejection), the locale's month label,
  the store's answer to \<^verbatim>\<open>create\<close> and \<^verbatim>\<open>save\<close> (\<open>Some\<close> is the message of the
  error thrown, for example a schema validation error), and the user.
\<close>

record upload_env =
  native_parse :: "string \<Rightarrow> js_date"
  convertToINR :: "js_number \<Rightarrow> string \<Rightarrow> string + js_number"
  month_label :: "int \<Rightarrow> string"
  create_error :: "entry \<Rightarrow> string option"
  save_error :: "entry \<Rightarrow> string option"
  user_id :: nat

record row_error =
  err_row :: nat
  err_error :: string
  err_data :: raw_row

record results =
  res_total :: nat
  res_success :: nat
  res_failed :: nat
  res_merged :: nat
  res_unique :: nat
  res_errors :: "row_error list"

definition or_default :: "string option \<Rightarrow> string \<Rightarrow> string" where
  "or_default v d = first_truthy [v] d"

fun join_comma :: "string list \<Rightarrow> string" where
  "join_comma [] = []"
| "join_comma [x] = x"
| "join_comma (x # y # ys) = x @ '', '' @ join_comma (y # ys)"

definition row_cardNumber :: "raw_row \<Rightarrow> string" where
  "row_cardNumber row = (case raw_cardNumber row of None \<Rightarrow> [] | Some s \<Rightarrow> trim s)"

definition row_cardAssignedTo :: "raw_row \<Rightarrow> string" where
  "row_cardAssignedTo row = (case raw_cardAssignedTo row of None \<Rightarrow> [] | Some s \<Rightarrow> trim s)"

definition row_status :: "raw_row \<Rightarrow> js_value" where
  "row_status row =
     (let statusRaw = trim (or_default (raw_status row) ''Active'')
      in (case normalizeEnum statusRaw statusMap allowedStatus of
            Some s \<Rightarrow> if truthy_value (Some s) then s else JStr ''Active''
          | None \<Rightarrow> JStr ''Active''))"

definition row_particulars :: "raw_row \<Rightarrow> string" where
  "row_particulars row = or_default (raw_particulars row) []"

definition row_currency :: "raw_row \<Rightarrow> string" where
  "row_currency row = trim (or_default (raw_currency row) ''USD'')"

definition row_typeOfService :: "raw_row \<Rightarrow> js_value option" where
  "row_typeOfService row = normalizeEnum (or_default (raw_typeOfService row) []) typeMap allowedTypes"

definition row_businessUnit :: "raw_row \<Rightarrow> js_value option" where
  "row_businessUnit row =
     normalizeEnum (trim (or_default (raw_businessUnit row) [])) businessUnitMap allowedBusinessUnits"

definition row_costCenter :: "raw_row \<Rightarrow> js_value option" where
  "row_costCenter row =
     normalizeEnum (or_default (raw_costCenter row) []) costCenterMap allowedCostCenters"

definition row_approvedBy :: "raw_row \<Rightarrow> js_value option" where
  "row_approvedBy row =
     normalizeEnum (or_default (raw_approvedBy row) []) approvedByMap allowedApprovedBy"

definition row_recurring :: "raw_row \<Rightarrow> js_value" where
  "row_recurring row = recurring_of (first_truthy (raw_recurring row) ''One-time'')"

definition row_isShared :: "raw_row \<Rightarrow> bool" where
  "row_isShared row =
     (parseBoolean (raw_isShared row) \<or> parseSharedAllocations (raw_sharedAlloc row) \<noteq> [])"

definition date_cell_falsy :: "date_cell \<Rightarrow> bool" where
  "date_cell_falsy c =
     (case c of CellEmpty \<Rightarrow> True | CellDate d \<Rightarrow> False | CellNum n \<Rightarrow> n = 0
      | CellStr s \<Rightarrow> s = [])"

definition missing_fields :: "raw_row \<Rightarrow> string list" where
  "missing_fields row =
     (if row_cardNumber row = [] then [''Card Number''] else [])
     @ (if row_cardAssignedTo row = [] then [''Card Assigned To''] else [])
     @ (if date_cell_falsy (raw_date row) then [''Date''] else [])
     @ (if row_particulars row = [] then [''Particulars''] else [])
     @ (if raw_amount row = NaN then [''Amount''] else [])
     @ (if \<not> truthy_value (row_businessUnit row) then [''Business Unit''] else [])"

definition value_or_empty :: "string \<Rightarrow> string" where
  "value_or_empty raw = (if raw \<noteq> [] then raw else ''empty'')"

definition enum_errors :: "raw_row \<Rightarrow> string list" where
  "enum_errors row =
     (if \<not> truthy_value (row_typeOfService row)
      then [''Type of Service (value: '' @ value_or_empty (or_default (raw_typeOfService row) []) @ '')'']
      else [])
     @ (if \<not> truthy_value (row_businessUnit row)
        then [''Business Unit (value: '' @ value_or_empty (trim (or_default (raw_businessUnit row) [])) @ '')'']
        else [])
     @ (if \<not> truthy_value (row_costCenter row)
        then [''Cost Center (value: '' @ value_or_empty (or_default (raw_costCenter row) []) @ '')'']
        else [])
     @ (if \<not> truthy_value (row_approvedBy row)
        then [''Approved By (value: '' @ value_or_empty (or_default (raw_approvedBy row) []) @ '')'']
        else [])"

definition resolve_rate :: "upload_env \<Rightarrow> raw_row \<Rightarrow> js_number \<Rightarrow> string + js_number" where
  "resolve_rate env row amt =
     (let providedRate = raw_xe row
      in if \<not> truthy_num providedRate then convertToINR env amt (row_currency row)
         else Inr providedRate)"

definition renewal_date_for :: "js_value \<Rightarrow> int \<Rightarrow> js_date" where
  "renewal_date_for recurringv parsedDate =
     (if recurringv = JStr ''Monthly'' then addOneMonth parsedDate
      else if recurringv = JStr ''Yearly'' then addOneYear parsedDate
      else None)"

text \<open>
  Modelled from the spec: the schema \<^verbatim>\<open>models/ExpenseEntry.js\<close> is not among the
  sources.  It supplies the value of the two notification flags, which
  \<^verbatim>\<open>create\<close> does not pass; the specification has them as booleans that the
  scheduler sets once a notice is sent, so a new entry starts with both unset.
\<close>

definition schema_default_flag :: bool where
  "schema_default_flag = False"

definition build_entry ::
  "upload_env \<Rightarrow> raw_row \<Rightarrow> bool \<times> allocation list \<Rightarrow> int \<Rightarrow> js_number \<Rightarrow> entry" where
  "build_entry env row shared parsedDate rate =
     (let amt = raw_amount row;
          providedInINR = raw_amtINR row;
          monthv = trim (or_default (raw_month row) []);
          narrationv = trim (or_default (raw_narration row) [])
      in \<lparr>eid = 0,
          cardNumber = row_cardNumber row,
          cardAssignedTo = row_cardAssignedTo row,
          date = parsedDate,
          month = (if monthv \<noteq> [] then monthv else month_label env parsedDate),
          status = row_status row,
          particulars = row_particulars row,
          narration = (if narrationv \<noteq> [] then narrationv else row_particulars row),
          currency = row_currency row,
          billStatus = trim (or_default (raw_billStatus row) []),
          amount = amt,
          xeRate = rate,
          amountInINR = (if truthy_num providedInINR then providedInINR else js_mul amt rate),
          typeOfService = row_typeOfService row,
          businessUnit = row_businessUnit row,
          costCenter = row_costCenter row,
          approvedBy = row_approvedBy row,
          serviceHandler = or_default (raw_serviceHandler row) [],
          recurring = row_recurring row,
          entryStatus = ''Accepted'',
          duplicateStatus = Some ''Unique'',
          createdBy = user_id env,
          nextRenewalDate = renewal_date_for (row_recurring row) parsedDate,
          isShared = fst shared,
          sharedAllocations = snd shared,
          renewalNotificationSent = schema_default_flag,
          autoCancellationNotificationSent = schema_default_flag\<rparr>)"

definition validate_row :: "upload_env \<Rightarrow> raw_row \<Rightarrow> bool \<times> allocation list \<Rightarrow> string + entry" where
  "validate_row env row shared =
     (if missing_fields row \<noteq> []
      then Inl (''Missing required fields: '' @ join_comma (missing_fields row))
      else if enum_errors row \<noteq> []
      then Inl (''Invalid enum: '' @ join_comma (enum_errors row))
      else
        (case parseDateValue (native_parse env) (raw_date row) of
           None \<Rightarrow> Inl ''Invalid date''
         | Some None \<Rightarrow> Inl ''Invalid date''
         | Some (Some parsedDate) \<Rightarrow>
             (case resolve_rate env row (raw_amount row) of
                Inl msg \<Rightarrow> Inl msg
              | Inr rate \<Rightarrow> Inr (build_entry env row shared parsedDate rate))))"

definition prepare_row :: "upload_env \<Rightarrow> raw_row \<Rightarrow> string + entry" where
  "prepare_row env row =
     (case upload_shared (row_isShared row) (parseSharedAllocations (raw_sharedAlloc row))
             (row_businessUnit row) (raw_amount row) of
        Inl msg \<Rightarrow> Inl msg
      | Inr shared \<Rightarrow> validate_row env row shared)"

text \<open>
  The store is the list of documents in insertion order.  \<^verbatim>\<open>findOne\<close> returns
  the first match; \<^verbatim>\<open>save\<close> writes the modified path of the document with the
  same \<^verbatim>\<open>_id\<close>; \<^verbatim>\<open>create\<close> appends a document with a fresh \<^verbatim>\<open>_id\<close>.
\<close>

definition duplicate_of :: "entry \<Rightarrow> entry \<Rightarrow> bool" where
  "duplicate_of doc e =
     (cardNumber e = cardNumber doc \<and> date e = date doc \<and> particulars e = particulars doc
      \<and> businessUnit e = businessUnit doc \<and> amount e = amount doc \<and> currency e = currency doc)"

definition fresh_id :: "entry list \<Rightarrow> nat" where
  "fresh_id store = Suc (foldr max (map eid store) 0)"

definition set_duplicateStatus :: "nat \<Rightarrow> string option \<Rightarrow> entry list \<Rightarrow> entry list" where
  "set_duplicateStatus i v store =
     map (\<lambda>e. if eid e = i then e\<lparr>duplicateStatus := v\<rparr> else e) store"

text \<open>
  The body of the loop (lines 291 to 621).  A failed validation and an
  exception caught at line 613 have the same effect, \<open>row_failed\<close>; the
  counters \<^verbatim>\<open>merged\<close> and \<^verbatim>\<open>unique\<close> are incremented before the write is
  awaited, as in lines 575 and 582.
\<close>

definition row_failed :: "nat \<Rightarrow> string \<Rightarrow> raw_row \<Rightarrow> results \<Rightarrow> results" where
  "row_failed i message row res =
     res\<lparr>res_failed := res_failed res + 1,
         res_errors := res_errors res @ [\<lparr>err_row = i + 2, err_error = message, err_data = row\<rparr>]\<rparr>"

definition upload_row ::
  "upload_env \<Rightarrow> nat \<Rightarrow> raw_row \<Rightarrow> results \<times> entry list \<Rightarrow> results \<times> entry list" where
  "upload_row env i row st =
     (case st of (res, store) \<Rightarrow>
        (case prepare_row env row of
           Inl message \<Rightarrow> (row_failed i message row res, store)
         | Inr doc \<Rightarrow>
             (case find (duplicate_of doc) store of
                Some duplicateEntry \<Rightarrow>
                  (let res = res\<lparr>res_merged := res_merged res + 1\<rparr>
                   in if duplicateStatus duplicateEntry \<noteq> Some ''Merged''
                      then
                        (case save_error env (duplicateEntry\<lparr>duplicateStatus := Some ''Merged''\<rparr>) of
                           Some message \<Rightarrow> (row_failed i message row res, store)
                         | None \<Rightarrow>
                             (res\<lparr>res_success := res_success res + 1\<rparr>,
                              set_duplicateStatus (eid duplicateEntry) (Some ''Merged'') store))
                      else (res\<lparr>res_success := res_success res + 1\<rparr>, store))
              | None \<Rightarrow>
                  (let res = res\<lparr>res_unique := res_unique res + 1\<rparr>;
                       created = doc\<lparr>eid := fresh_id store\<rparr>
                   in (case create_error env created of
                         Some message \<Rightarrow> (row_failed i message row res, store)
                       | None \<Rightarrow> (res\<lparr>res_success := res_success res + 1\<rparr>, store @ [created]))))))"

fun upload_rows ::
  "upload_env \<Rightarrow> nat \<Rightarrow> raw_row list \<Rightarrow> results \<times> entry list \<Rightarrow> results \<times> entry list" where
  "upload_rows env i [] st = st"
| "upload_rows env i (row # rows) st = upload_rows env (Suc i) rows (upload_row env i row st)"

definition bulkUploadExpenses ::
  "upload_env \<Rightarrow> raw_row list \<Rightarrow> entry list \<Rightarrow> string + (results \<times> entry list)" where
  "bulkUploadExpenses env data store =
     (if data = [] then Inl ''No data found in the uploaded file''
      else Inr (upload_rows env 0 data
                  (\<lparr>res_total = length data, res_success = 0, res_failed = 0, res_merged = 0,
                     res_unique = 0, res_errors = []\<rparr>, store)))"

subsection \<open>Single-record requests (controllers/expenseController.js)\<close>

text \<open>
  A field of a request body or of the user is absent, \<^verbatim>\<open>null\<close> or given; the
  first two differ under \<^verbatim>\<open>!==\<close>, and \<^verbatim>\<open>a ?? b\<close> is \<open>b\<close> unless \<open>a\<close> is given.
\<close>

datatype 'a js_field = Undefined | Null | Given 'a









subsection \<open>Sample data\<close>

definition sample_env :: upload_env where
  "sample_env =
     \<lparr>native_parse = no_native,
      convertToINR = (\<lambda>a c. Inr (Fin 83)),
      month_label = (\<lambda>t. ''Jan 2025''),
      create_error = (\<lambda>e. None),
      save_error = (\<lambda>e. None),
      user_id = 7\<rparr>"

definition plain_row :: raw_row where
  "plain_row =
     \<lparr>raw_cardNumber = Some ''M003'',
      raw_cardAssignedTo = Some ''John Doe'',
      raw_date = CellStr ''01/05/2025'',
      raw_month = Some ''Jan-2025'',
      raw_status = Some ''Active'',
      raw_particulars = Some ''ChatGPT'',
      raw_narration = None,
      raw_currency = Some ''USD'',
      raw_billStatus = None,
      raw_amount = Fin 200,
      raw_typeOfService = Some ''Tool'',
      raw_businessUnit = Some ''Wytlabs'',
      raw_costCenter = Some ''Ops'',
      raw_approvedBy = Some ''Raghav'',
      raw_serviceHandler = Some ''Raghav'',
      raw_recurring = [Some ''Yearly'', None, None, None],
      raw_isShared = None,
      raw_sharedAlloc = [],
      raw_xe = Fin 83,
      raw_amtINR = NaN\<rparr>"

definition plain_doc :: entry where
  "plain_doc =
     \<lparr>eid = 0, cardNumber = ''M003'', cardAssignedTo = ''John Doe'',
      date = 1736035200000, month = ''Jan-2025'', status = JStr ''Active'',
      particulars = ''ChatGPT'', narration = ''ChatGPT'',
      currency = ''USD'', billStatus = [], amount = Fin 200, xeRate = Fin 83,
      amountInINR = Fin 16600, typeOfService = Some (JStr ''Tool''),
      businessUnit = Some (JStr ''Wytlabs''), costCenter = Some (JStr ''Ops''),
      approvedBy = Some (JStr ''Raghav''), serviceHandler = ''Raghav'',
      recurring = JStr ''Yearly'', entryStatus = ''Accepted'',
      duplicateStatus = Some ''Unique'', createdBy = 7,
      nextRenewalDate = Some 1767571200000, isShared = False,
      sharedAllocations = [],
      renewalNotificationSent = False,
      autoCancellationNotificationSent = False\<rparr>"

definition res0 :: results where
  "res0 = \<lparr>res_total = 1, res_success = 0, res_failed = 0, res_merged = 0, res_unique = 0,
            res_errors = []\<rparr>"


definition rejecting_env :: upload_env where
  "rejecting_env = sample_env\<lparr>create_error := (\<lambda>e. Some ''ExpenseEntry validation failed'')\<rparr>"






definition inherited_row :: raw_row where
  "inherited_row =
     plain_row\<lparr>raw_isShared := Some ''No'', raw_sharedAlloc := [(''constructor'', Fin 100)]\<rparr>"






subsection \<open>The invariant of the counters after \<open>n\<close> rows\<close>

definition counters_ok :: "results \<Rightarrow> nat \<Rightarrow> bool" where
  "counters_ok res n =
     (res_success res + res_failed res = n
      \<and> length (res_errors res) = res_failed res
      \<and> res_success res \<le> res_merged res + res_unique res)"

subsection \<open>Theorems about duplicates\<close>

lemma eid_less_fresh_id: "e \<in> set store \<Longrightarrow> eid e < fresh_id store"
  by (induction store) (auto simp: fresh_id_def)

lemma duplicate_of_duplicateStatus [simp]:
  "duplicate_of doc (e\<lparr>duplicateStatus := v\<rparr>) = duplicate_of doc e"
  "duplicate_of (doc\<lparr>duplicateStatus := v\<rparr>) e = duplicate_of doc e"
  "duplicate_of (doc\<lparr>eid := n\<rparr>) e = duplicate_of doc e"
  "duplicate_of doc (e\<lparr>eid := n\<rparr>) = duplicate_of doc e"
  by (simp_all add: duplicate_of_def)

lemma duplicate_of_refl [simp]: "duplicate_of doc doc"
  by (simp add: duplicate_of_def)

lemma length_set_duplicateStatus [simp]:
  "length (set_duplicateStatus i v store) = length store"
  by (simp add: set_duplicateStatus_def)

lemma find_set_duplicateStatus:
  "find (duplicate_of doc) (set_duplicateStatus i v store) =
     map_option (\<lambda>e. if eid e = i then e\<lparr>duplicateStatus := v\<rparr> else e)
       (find (duplicate_of doc) store)"
  by (induction store) (simp_all add: set_duplicateStatus_def)

lemma set_duplicateStatus_fresh:
  "set_duplicateStatus (fresh_id store) v (store @ [doc\<lparr>eid := fresh_id store\<rparr>]) =
     store @ [doc\<lparr>eid := fresh_id store, duplicateStatus := v\<rparr>]"
proof -
  have "map (\<lambda>e. if eid e = fresh_id store then e\<lparr>duplicateStatus := v\<rparr> else e) store = store"
    by (intro map_idI) (auto dest: eid_less_fresh_id)
  then show ?thesis
    by (simp add: set_duplicateStatus_def)
qed

lemma find_append_new:
  "find P store = None \<Longrightarrow> P x \<Longrightarrow> find P (store @ [x]) = Some x"
  by (induction store) (auto split: if_splits)

lemma validate_row_built:
  "validate_row env row shared = Inr doc \<Longrightarrow>
     \<exists>parsedDate rate. doc = build_entry env row shared parsedDate rate"
  by (auto simp: validate_row_def split: if_splits option.splits sum.splits)

lemma prepare_row_built:
  "prepare_row env row = Inr doc \<Longrightarrow>
     \<exists>shared parsedDate rate.
        upload_shared (row_isShared row) (parseSharedAllocations (raw_sharedAlloc row))
          (row_businessUnit row) (raw_amount row) = Inr shared
        \<and> doc = build_entry env row shared parsedDate rate"
  by (auto simp: prepare_row_def split: sum.splits dest: validate_row_built)

lemma upload_row_merge:
  assumes "prepare_row env row = Inr doc"
    and "find (duplicate_of doc) store = Some d"
    and "duplicateStatus d = Some ''Merged''
         \<or> save_error env (d\<lparr>duplicateStatus := Some ''Merged''\<rparr>) = None"
  shows "upload_row env i row (res, store) =
           (res\<lparr>res_merged := res_merged res + 1, res_success := res_success res + 1\<rparr>,
            if duplicateStatus d = Some ''Merged'' then store
            else set_duplicateStatus (eid d) (Some ''Merged'') store)"
  using assms by (auto simp: upload_row_def Let_def)

lemma upload_row_create:
  assumes "prepare_row env row = Inr doc"
    and "find (duplicate_of doc) store = None"
    and "create_error env (doc\<lparr>eid := fresh_id store\<rparr>) = None"
  shows "upload_row env i row (res, store) =
           (res\<lparr>res_unique := res_unique res + 1, res_success := res_success res + 1\<rparr>,
            store @ [doc\<lparr>eid := fresh_id store\<rparr>])"
  using assms by (auto simp: upload_row_def Let_def)

text \<open>
  C1: for a row that passes validation, (a) when its duplicate key matches a
  persisted record and the write is accepted, the first such record is marked
  Merged (the store is written only if it was not Merged already), the row
  counts as merged and as a success, and the store keeps its length; (b) on a
  store without a match, the first pass creates one record and the second
  pass of the same row marks that record Merged and creates nothing.
\<close>

theorem C1_duplicate_row_is_merged:
  assumes valid: "prepare_row env row = Inr doc"
  shows "(find (duplicate_of doc) store = Some d
          \<and> (duplicateStatus d = Some ''Merged''
              \<or> save_error env (d\<lparr>duplicateStatus := Some ''Merged''\<rparr>) = None) \<longrightarrow>
            (case upload_row env i row (res, store) of
               (res', store') \<Rightarrow>
                 res' = res\<lparr>res_merged := res_merged res + 1, res_success := res_success res + 1\<rparr>
                 \<and> store' = (if duplicateStatus d = Some ''Merged'' then store
                              else set_duplicateStatus (eid d) (Some ''Merged'') store)
                 \<and> length store' = length store
                 \<and> find (duplicate_of doc) store' = Some (d\<lparr>duplicateStatus := Some ''Merged''\<rparr>)))
       \<and> (find (duplicate_of doc) store = None
          \<and> create_error env (doc\<lparr>eid := fresh_id store\<rparr>) = None
          \<and> save_error env (doc\<lparr>eid := fresh_id store, duplicateStatus := Some ''Merged''\<rparr>) = None \<longrightarrow>
            (case upload_row env i row (res, store) of
               (res1, store1) \<Rightarrow>
                 store1 = store @ [doc\<lparr>eid := fresh_id store\<rparr>]
                 \<and> res1 = res\<lparr>res_unique := res_unique res + 1, res_success := res_success res + 1\<rparr>
                 \<and> (case upload_row env j row (res1, store1) of
                       (res2, store2) \<Rightarrow>
                         store2 = store @ [doc\<lparr>eid := fresh_id store, duplicateStatus := Some ''Merged''\<rparr>]
                         \<and> length store2 = length store1
                         \<and> res2 = res1\<lparr>res_merged := res_merged res1 + 1,
                                       res_success := res_success res1 + 1\<rparr>)))"
proof (intro conjI impI)
  assume a: "find (duplicate_of doc) store = Some d
     \<and> (duplicateStatus d = Some ''Merged''
        \<or> save_error env (d\<lparr>duplicateStatus := Some ''Merged''\<rparr>) = None)"
  have m: "duplicateStatus d = Some ''Merged'' \<Longrightarrow> d\<lparr>duplicateStatus := Some ''Merged''\<rparr> = d"
    by simp
  show "case upload_row env i row (res, store) of
               (res', store') \<Rightarrow>
                 res' = res\<lparr>res_merged := res_merged res + 1, res_success := res_success res + 1\<rparr>
                 \<and> store' = (if duplicateStatus d = Some ''Merged'' then store
                              else set_duplicateStatus (eid d) (Some ''Merged'') store)
                 \<and> length store' = length store
                 \<and> find (duplicate_of doc) store' = Some (d\<lparr>duplicateStatus := Some ''Merged''\<rparr>)"
    using a m upload_row_merge [OF valid, of store d i res]
    by (simp add: find_set_duplicateStatus)
next
  assume b: "find (duplicate_of doc) store = None
     \<and> create_error env (doc\<lparr>eid := fresh_id store\<rparr>) = None
     \<and> save_error env (doc\<lparr>eid := fresh_id store, duplicateStatus := Some ''Merged''\<rparr>) = None"
  let ?new = "doc\<lparr>eid := fresh_id store\<rparr>"
  let ?res1 = "res\<lparr>res_unique := res_unique res + 1, res_success := res_success res + 1\<rparr>"
  have first: "upload_row env i row (res, store) = (?res1, store @ [?new])"
    using b upload_row_create [OF valid, of store i res] by simp
  have f: "find (duplicate_of doc) (store @ [?new]) = Some ?new"
    using b by (intro find_append_new) simp_all
  have st: "duplicateStatus ?new = Some ''Unique''"
    using prepare_row_built [OF valid] by (auto simp: build_entry_def Let_def)
  have second: "upload_row env j row (?res1, store @ [?new]) =
      (?res1\<lparr>res_merged := res_merged ?res1 + 1, res_success := res_success ?res1 + 1\<rparr>,
       set_duplicateStatus (eid ?new) (Some ''Merged'') (store @ [?new]))"
    using upload_row_merge [OF valid f, of j ?res1] b st by simp
  show "case upload_row env i row (res, store) of
               (res1, store1) \<Rightarrow>
                 store1 = store @ [doc\<lparr>eid := fresh_id store\<rparr>]
                 \<and> res1 = res\<lparr>res_unique := res_unique res + 1, res_success := res_success res + 1\<rparr>
                 \<and> (case upload_row env j row (res1, store1) of
                       (res2, store2) \<Rightarrow>
                         store2 = store @ [doc\<lparr>eid := fresh_id store, duplicateStatus := Some ''Merged''\<rparr>]
                         \<and> length store2 = length store1
                         \<and> res2 = res1\<lparr>res_merged := res_merged res1 + 1,
                                       res_success := res_success res1 + 1\<rparr>)"
    using first second by (simp add: set_duplicateStatus_fresh)
qed

lemma prepare_plain_row: "prepare_row sample_env plain_row = Inr plain_doc"
  by code_simp

theorem C1_duplicate_row_is_merged_witness:
  "prepare_row sample_env plain_row = Inr plain_doc
   \<and> find (duplicate_of plain_doc) [plain_doc\<lparr>eid := 4\<rparr>] = Some (plain_doc\<lparr>eid := 4\<rparr>)
   \<and> upload_row sample_env 0 plain_row (res0, [plain_doc\<lparr>eid := 4\<rparr>]) =
       (res0\<lparr>res_merged := 1, res_success := 1\<rparr>,
        [plain_doc\<lparr>eid := 4, duplicateStatus := Some ''Merged''\<rparr>])
   \<and> find (duplicate_of plain_doc) [] = None
   \<and> upload_row sample_env 1 plain_row (upload_row sample_env 0 plain_row (res0, [])) =
       (res0\<lparr>res_unique := 1, res_merged := 1, res_success := 2\<rparr>,
        [plain_doc\<lparr>eid := 1, duplicateStatus := Some ''Merged''\<rparr>])"
proof -
  have f: "find (duplicate_of plain_doc) [plain_doc\<lparr>eid := 4\<rparr>] = Some (plain_doc\<lparr>eid := 4\<rparr>)"
    by simp
  have s: "save_error sample_env x = None" "create_error sample_env x = None" for x
    by (simp_all add: sample_env_def)
  have u: "duplicateStatus (plain_doc\<lparr>eid := 4\<rparr>) = Some ''Unique''"
    by (simp add: plain_doc_def)
  have i: "fresh_id [] = 1"
    by (simp add: fresh_id_def)
  have a: "upload_row sample_env 0 plain_row (res0, [plain_doc\<lparr>eid := 4\<rparr>]) =
       (res0\<lparr>res_merged := 1, res_success := 1\<rparr>,
        [plain_doc\<lparr>eid := 4, duplicateStatus := Some ''Merged''\<rparr>])"
    using C1_duplicate_row_is_merged [OF prepare_plain_row,
        where store = "[plain_doc\<lparr>eid := 4\<rparr>]" and d = "plain_doc\<lparr>eid := 4\<rparr>"
          and i = 0 and res = res0 and j = 0] f s u
    by (simp add: set_duplicateStatus_def res0_def split: prod.splits)
  have b: "upload_row sample_env 1 plain_row (upload_row sample_env 0 plain_row (res0, [])) =
       (res0\<lparr>res_unique := 1, res_merged := 1, res_success := 2\<rparr>,
        [plain_doc\<lparr>eid := 1, duplicateStatus := Some ''Merged''\<rparr>])"
    using C1_duplicate_row_is_merged [OF prepare_plain_row,
        where store = "[]" and d = plain_doc and i = 0 and res = res0 and j = 1] s i
    by (simp add: res0_def split: prod.splits)
  show ?thesis
    using prepare_plain_row f a b by simp
qed

subsection \<open>Theorems about shared allocations\<close>







lemma validateSharedAllocations_examples:
  "validateSharedAllocations True [(Some (JStr ''Collabx''), Fin 150)] (Truthy NaN)
     (Some (JStr ''Wytlabs''))
   = Inr (True, [\<lparr>sa_businessUnit = Some (JStr ''Collabx''), sa_amount = Fin 150\<rparr>,
                 \<lparr>sa_businessUnit = Some (JStr ''Wytlabs''), sa_amount = Fin 0\<rparr>])"
  "validateSharedAllocations True [(Some (JStr ''Collabx''), Fin 150)] Falsy (Some (JStr ''Wytlabs''))
   = Inl AllocationExceedsTotal"
  "validateSharedAllocations True
     [(Some (JStr ''Wytlabs''), Fin (3602879701896397 / 36028797018963968)),
      (Some (JStr ''Collabx''), Fin (3602879701896397 / 18014398509481984))]
     (Truthy (Fin (5404319552844595 / 18014398509481984))) (Some (JStr ''Wytlabs''))
   = Inl AllocationExceedsTotal"
  "validateSharedAllocations False [(Some (JStr ''Collabx''), Fin 350)] (Truthy (Fin 300))
     (Some (JStr ''Wytlabs''))
   = Inr (False, [])"
  by code_simp+














lemma inherited_member_allocation:
  "\<not> parseBoolean (raw_isShared inherited_row)"
  "parseSharedAllocations (raw_sharedAlloc inherited_row) =
     [\<lparr>sa_businessUnit = Some (JObject ''constructor''), sa_amount = Fin 100\<rparr>]"
  "map isShared (snd (upload_row sample_env 0 inherited_row (res0, []))) = [True]"
  "map sharedAllocations (snd (upload_row sample_env 0 inherited_row (res0, []))) =
     [[\<lparr>sa_businessUnit = Some (JObject ''constructor''), sa_amount = Fin 100\<rparr>,
       \<lparr>sa_businessUnit = Some (JStr ''Wytlabs''), sa_amount = Fin 0\<rparr>]]"
  by code_simp+

subsection \<open>Theorems about the batch counters\<close>

text \<open>
  C10 (the code at the failing input): a batch of one valid row without a
  duplicate, whose \<^verbatim>\<open>create\<close> is rejected by the store, ends with unique = 1,
  merged = 0 and success = 0.
\<close>

theorem C10_rejected_create_counted_unique:
  "bulkUploadExpenses rejecting_env [plain_row] [] =
     Inr (\<lparr>res_total = 1, res_success = 0, res_failed = 1, res_merged = 0, res_unique = 1,
           res_errors = [\<lparr>err_row = 2, err_error = ''ExpenseEntry validation failed'',
                           err_data = plain_row\<rparr>]\<rparr>, [])"
  by code_simp

lemma upload_row_counters:
  assumes "counters_ok res n"
  shows "counters_ok (fst (upload_row env i row (res, store))) (Suc n)
       \<and> res_total (fst (upload_row env i row (res, store))) = res_total res"
  using assms
  by (auto simp: counters_ok_def upload_row_def row_failed_def Let_def
        split: sum.splits option.splits)

lemma upload_rows_counters:
  "counters_ok (fst st) n \<Longrightarrow>
     counters_ok (fst (upload_rows env i rows st)) (n + length rows)
     \<and> res_total (fst (upload_rows env i rows st)) = res_total (fst st)"
proof (induction rows arbitrary: i st n)
  case Nil
  then show ?case by simp
next
  case (Cons row rows)
  obtain res store where st: "st = (res, store)" by (cases st)
  have "counters_ok (fst (upload_row env i row st)) (Suc n)"
    and t: "res_total (fst (upload_row env i row st)) = res_total (fst st)"
    using Cons.prems upload_row_counters [of res n env i row store] by (simp_all add: st)
  from Cons.IH [OF this(1), of "Suc i"] t show ?case by simp
qed

lemma upload_row_counters_exact:
  assumes "\<And>e. create_error env e = None" and "\<And>e. save_error env e = None"
    and "res_merged res + res_unique res = res_success res"
  shows "res_merged (fst (upload_row env i row (res, store)))
           + res_unique (fst (upload_row env i row (res, store)))
         = res_success (fst (upload_row env i row (res, store)))"
  using assms
  by (auto simp: upload_row_def row_failed_def Let_def split: sum.splits option.splits)

lemma upload_rows_counters_exact:
  assumes "\<And>e. create_error env e = None" and "\<And>e. save_error env e = None"
  shows "res_merged (fst st) + res_unique (fst st) = res_success (fst st) \<Longrightarrow>
         res_merged (fst (upload_rows env i rows st)) + res_unique (fst (upload_rows env i rows st))
         = res_success (fst (upload_rows env i rows st))"
proof (induction rows arbitrary: i st)
  case Nil
  then show ?case by simp
next
  case (Cons row rows)
  obtain res store where st: "st = (res, store)" by (cases st)
  have "res_merged (fst (upload_row env i row st)) + res_unique (fst (upload_row env i row st))
        = res_success (fst (upload_row env i row st))"
    using upload_row_counters_exact [OF assms, of res i row store] Cons.prems by (simp add: st)
  from Cons.IH [OF this] show ?case by simp
qed

lemma bulk_upload_counters_without_write_errors:
  assumes "\<And>e. create_error env e = None" and "\<And>e. save_error env e = None"
    and "bulkUploadExpenses env data store = Inr (res, store')"
  shows "res_merged res + res_unique res = res_success res"
proof -
  let ?init = "\<lparr>res_total = length data, res_success = 0, res_failed = 0, res_merged = 0,
                 res_unique = 0, res_errors = []\<rparr>"
  have r: "upload_rows env 0 data (?init, store) = (res, store')"
    using assms(3) by (simp add: bulkUploadExpenses_def split: if_splits)
  have "res_merged (fst (?init, store)) + res_unique (fst (?init, store))
        = res_success (fst (?init, store))"
    by simp
  from upload_rows_counters_exact [OF assms(1,2) this, of 0 data] r
  show ?thesis by simp
qed

lemma bulk_upload_counters:
  assumes "bulkUploadExpenses env data store = Inr (res, store')"
  shows "res_success res + res_failed res = res_total res
       \<and> length (res_errors res) = res_failed res
       \<and> res_success res \<le> res_merged res + res_unique res"
proof -
  let ?init = "\<lparr>res_total = length data, res_success = 0, res_failed = 0, res_merged = 0,
                 res_unique = 0, res_errors = []\<rparr>"
  have r: "(res, store') = upload_rows env 0 data (?init, store)"
    using assms by (simp add: bulkUploadExpenses_def split: if_splits)
  have "counters_ok (fst (?init, store)) 0"
    by (simp add: counters_ok_def)
  from upload_rows_counters [OF this, of env 0 data] r [symmetric]
  show ?thesis by (simp add: counters_ok_def)
qed

section \<open>Renewal lifecycle jobs (services/cronJobs.js)\<close>

text \<open>
  The state of the jobs: the expense entries, the append-only renewal log,
  the users, and the emails and in-app notifications sent so far.  An email
  is recorded as the recipient's address and the \<^verbatim>\<open>_id\<close> of the entry; a
  notification by its user, type, title and related entry.
\<close>

record renewal_log =
  log_expenseEntry :: nat
  log_action :: string
  log_renewalDate :: int

record user =
  u_id :: nat
  u_name :: string
  u_email :: string
  u_role :: string
  u_businessUnit :: string

record notification =
  n_user :: nat
  n_type :: string
  n_title :: string
  n_relatedEntry :: nat

record cron_state =
  entries :: "entry list"
  renewalLogs :: "renewal_log list"
  users :: "user list"
  emails :: "(string \<times> nat) list"
  notifications :: "notification list"

datatype cron_fault = FaultEmail | FaultNotification | FaultSave

record cron_env =
  now :: int
  RENEWAL_NOTIFICATION_DAYS :: "string option"
  fault_at :: "nat \<Rightarrow> cron_fault option"

text \<open>
  \<^verbatim>\<open>buildNamePattern\<close> builds a case-insensitive regular expression whose
  alternatives are the escaped handler name and its tokens; it matches a
  string that contains one of the alternatives.  For an empty handler name
  the pattern is \<^verbatim>\<open>undefined\<close>, and the query condition \<^verbatim>\<open>name: undefined\<close>
  matches no user that has a name.
\<close>

fun is_prefix :: "string \<Rightarrow> string \<Rightarrow> bool" where
  "is_prefix [] s = True"
| "is_prefix (p # ps) [] = False"
| "is_prefix (p # ps) (c # cs) = (p = c \<and> is_prefix ps cs)"

fun contains :: "string \<Rightarrow> string \<Rightarrow> bool" where
  "contains pat [] = (pat = [])"
| "contains pat (c # cs) = (is_prefix pat (c # cs) \<or> contains pat cs)"

definition buildNamePattern :: "string \<Rightarrow> string list option" where
  "buildNamePattern name =
     (if name = [] then None
      else Some (name # filter (\<lambda>t. t \<noteq> []) (map trim (split_on CHR '' '' name))))"

definition pattern_test :: "string list \<Rightarrow> string \<Rightarrow> bool" where
  "pattern_test alternatives s =
     list_ex (\<lambda>alt. contains (toLowerCase alt) (toLowerCase s)) alternatives"

text \<open>
  \<^verbatim>\<open>hasRenewalAction\<close>: a log entry for this entry and renewal date whose action
  is one of the three decisions.  The \<^verbatim>\<open>_id\<close> of a document is always truthy.
\<close>

definition hasRenewalAction :: "renewal_log list \<Rightarrow> nat \<Rightarrow> js_date \<Rightarrow> bool" where
  "hasRenewalAction logs entryId renewalDate =
     (case renewalDate of
        None \<Rightarrow> False
      | Some d \<Rightarrow>
          list_ex (\<lambda>l. log_expenseEntry l = entryId \<and> log_renewalDate l = d
                      \<and> log_action l \<in> set [''Continue'', ''Cancel'', ''DisableByMIS'']) logs)"

definition findHandler :: "user list \<Rightarrow> entry \<Rightarrow> user option" where
  "findHandler us entry =
     (case buildNamePattern (serviceHandler entry) of
        None \<Rightarrow> None
      | Some pattern \<Rightarrow>
          find (\<lambda>u. pattern_test pattern (u_name u) \<and> u_role u = ''service_handler''
                    \<and> Some (JStr (u_businessUnit u)) = businessUnit entry) us)"

text \<open>
  The reminder job.  \<^verbatim>\<open>parseInt(process.env.RENEWAL_NOTIFICATION_DAYS, 10) || 5\<close>
  days are added to the current time (\<^verbatim>\<open>setDate\<close>; in UTC this adds whole
  days), and the query selects the entries whose renewal date lies between
  00:00:00.000 and 23:59:59.999 of that day.
\<close>

definition reminderDays :: "cron_env \<Rightarrow> int" where
  "reminderDays env =
     (case RENEWAL_NOTIFICATION_DAYS env of
        None \<Rightarrow> 5
      | Some s \<Rightarrow> (case parseInt s of None \<Rightarrow> 5 | Some n \<Rightarrow> if n = 0 then 5 else n))"

definition in_target_day :: "int \<Rightarrow> int \<Rightarrow> js_date \<Rightarrow> bool" where
  "in_target_day t days renewal =
     (let targetDate = t + days * msPerDay;
          start = targetDate - targetDate mod msPerDay;
          finish = start + (msPerDay - 1)
      in (case renewal of None \<Rightarrow> False | Some d \<Rightarrow> start \<le> d \<and> d \<le> finish))"

definition reminder_due :: "cron_env \<Rightarrow> entry \<Rightarrow> bool" where
  "reminder_due env e =
     (in_target_day (now env) (reminderDays env) (nextRenewalDate e)
      \<and> status e = JStr ''Active'' \<and> entryStatus e = ''Accepted''
      \<and> \<not> renewalNotificationSent e)"

definition upcomingRenewals :: "cron_env \<Rightarrow> entry list \<Rightarrow> entry list" where
  "upcomingRenewals env es = filter (reminder_due env) es"

text \<open>
  The loop over the selected documents (lines 52 to 87).  Each of the three
  awaited calls (sending the email, creating the notification, saving the
  entry) may throw, which ends the job with what was done so far.
\<close>

definition set_renewalNotificationSent :: "nat \<Rightarrow> bool \<Rightarrow> entry list \<Rightarrow> entry list" where
  "set_renewalNotificationSent i v es =
     map (\<lambda>e. if eid e = i then e\<lparr>renewalNotificationSent := v\<rparr> else e) es"

definition reminder_for :: "user \<Rightarrow> entry \<Rightarrow> notification" where
  "reminder_for u entry =
     \<lparr>n_user = u_id u, n_type = ''renewal_reminder'', n_title = ''Service Renewal Reminder'',
      n_relatedEntry = eid entry\<rparr>"

fun remind_loop :: "cron_env \<Rightarrow> entry list \<Rightarrow> cron_state \<Rightarrow> job_outcome \<times> cron_state" where
  "remind_loop env [] st = (Completed, st)"
| "remind_loop env (entry # rest) st =
     (if hasRenewalAction (renewalLogs st) (eid entry) (nextRenewalDate entry)
      then remind_loop env rest st
      else
        (case findHandler (users st) entry of
           None \<Rightarrow> remind_loop env rest st
         | Some handler \<Rightarrow>
             if fault_at env (eid entry) = Some FaultEmail then (Threw, st)
             else
               (let st1 = st\<lparr>emails := emails st @ [(u_email handler, eid entry)]\<rparr>
                in if fault_at env (eid entry) = Some FaultNotification then (Threw, st1)
                   else
                     (let st2 = st1\<lparr>notifications :=
                                       notifications st1 @ [reminder_for handler entry]\<rparr>
                      in if fault_at env (eid entry) = Some FaultSave then (Threw, st2)
                         else remind_loop env rest
                                (st2\<lparr>entries :=
                                       set_renewalNotificationSent (eid entry) True (entries st2)\<rparr>)))))"

definition runRenewalRemindersOnce :: "cron_env \<Rightarrow> cron_state \<Rightarrow> job_outcome \<times> cron_state" where
  "runRenewalRemindersOnce env st = remind_loop env (upcomingRenewals env (entries st)) st"

text \<open>
  The rollover job (lines 138 to 176): every entry whose renewal date is in
  the past and whose reminder flag is set gets the next date and the flag
  reset, in one \<^verbatim>\<open>bulkWrite\<close> of \<^verbatim>\<open>updateOne\<close> operations by \<^verbatim>\<open>_id\<close>.
\<close>

definition rollover_due :: "int \<Rightarrow> entry \<Rightarrow> bool" where
  "rollover_due t e =
     ((case nextRenewalDate e of None \<Rightarrow> False | Some d \<Rightarrow> d < t) \<and> renewalNotificationSent e)"

definition next_date :: "entry \<Rightarrow> js_date" where
  "next_date entry =
     (case nextRenewalDate entry of
        None \<Rightarrow> None
      | Some nextDate \<Rightarrow>
          if recurring entry = JStr ''Monthly'' then addOneMonth nextDate
          else if recurring entry = JStr ''Yearly'' then addOneYear nextDate
          else Some nextDate)"

fun updateOne :: "nat \<Rightarrow> (entry \<Rightarrow> entry) \<Rightarrow> entry list \<Rightarrow> entry list" where
  "updateOne i f [] = []"
| "updateOne i f (e # es) = (if eid e = i then f e # es else e # updateOne i f es)"

definition roll :: "js_date \<Rightarrow> entry \<Rightarrow> entry" where
  "roll d e = e\<lparr>nextRenewalDate := d, renewalNotificationSent := False\<rparr>"

definition bulkWrite :: "(nat \<times> js_date) list \<Rightarrow> entry list \<Rightarrow> entry list" where
  "bulkWrite ops es = foldl (\<lambda>acc (i, d). updateOne i (roll d) acc) es ops"

definition runRenewalFlagResetOnce :: "int \<Rightarrow> entry list \<Rightarrow> entry list" where
  "runRenewalFlagResetOnce t es =
     (let candidates = filter (rollover_due t) es
      in if candidates = [] then es
         else bulkWrite (map (\<lambda>entry. (eid entry, next_date entry)) candidates) es)"

subsection \<open>Sample data\<close>

definition monthly_entry :: entry where
  "monthly_entry =
     plain_doc\<lparr>eid := 1, recurring := JStr ''Monthly'', date := 1735603200000,
               nextRenewalDate := Some 1738281600000, renewalNotificationSent := True\<rparr>"

definition due_entry :: entry where
  "due_entry =
     plain_doc\<lparr>eid := 1, recurring := JStr ''Monthly'', date := 1736467200000,
               nextRenewalDate := Some 1739145600000\<rparr>"

definition logged_entry :: entry where
  "logged_entry = due_entry\<lparr>eid := 2, particulars := ''Figma''\<rparr>"

definition handler_user :: user where
  "handler_user =
     \<lparr>u_id = 3, u_name = ''Raghav Sharma'', u_email = ''raghav@example.com'',
      u_role = ''service_handler'', u_businessUnit = ''Wytlabs''\<rparr>"

definition sample_state :: cron_state where
  "sample_state =
     \<lparr>entries = [due_entry, logged_entry],
      renewalLogs = [\<lparr>log_expenseEntry = 2, log_action = ''Continue'',
                      log_renewalDate = 1739145600000\<rparr>],
      users = [handler_user],
      emails = [],
      notifications = []\<rparr>"

definition reminded_state :: cron_state where
  "reminded_state =
     sample_state\<lparr>entries := [due_entry\<lparr>renewalNotificationSent := True\<rparr>, logged_entry],
                  emails := [(''raghav@example.com'', 1)],
                  notifications := [reminder_for handler_user due_entry]\<rparr>"

definition sample_cron_env :: cron_env where
  "sample_cron_env =
     \<lparr>now = 1738764000000, RENEWAL_NOTIFICATION_DAYS = None, fault_at = (\<lambda>i. None)\<rparr>"

subsection \<open>What one run of the reminder loop sends\<close>

definition will_send :: "renewal_log list \<Rightarrow> user list \<Rightarrow> entry \<Rightarrow> bool" where
  "will_send logs us e =
     (\<not> hasRenewalAction logs (eid e) (nextRenewalDate e) \<and> findHandler us e \<noteq> None)"

definition sent_notes :: "renewal_log list \<Rightarrow> user list \<Rightarrow> entry \<Rightarrow> notification list" where
  "sent_notes logs us e =
     (if hasRenewalAction logs (eid e) (nextRenewalDate e) then []
      else (case findHandler us e of None \<Rightarrow> [] | Some u \<Rightarrow> [reminder_for u e]))"

definition sent_mails :: "renewal_log list \<Rightarrow> user list \<Rightarrow> entry \<Rightarrow> (string \<times> nat) list" where
  "sent_mails logs us e =
     (if hasRenewalAction logs (eid e) (nextRenewalDate e) then []
      else (case findHandler us e of None \<Rightarrow> [] | Some u \<Rightarrow> [(u_email u, eid e)]))"

definition mark_sent :: "nat set \<Rightarrow> entry \<Rightarrow> entry" where
  "mark_sent S x = (if eid x \<in> S then x\<lparr>renewalNotificationSent := True\<rparr> else x)"

subsection \<open>Theorems about the reminder job\<close>

lemma mark_sent_insert:
  "mark_sent S (if eid x = i then x\<lparr>renewalNotificationSent := True\<rparr> else x) = mark_sent (insert i S) x"
  by (simp add: mark_sent_def)

lemma remind_loop_completed:
  "remind_loop env cs st = (Completed, st') \<Longrightarrow>
     renewalLogs st' = renewalLogs st \<and> users st' = users st
     \<and> notifications st' =
         notifications st @ concat (map (sent_notes (renewalLogs st) (users st)) cs)
     \<and> emails st' = emails st @ concat (map (sent_mails (renewalLogs st) (users st)) cs)
     \<and> entries st' =
         map (mark_sent (eid ` {c \<in> set cs. will_send (renewalLogs st) (users st) c}))
           (entries st)"
proof (induction cs arbitrary: st)
  case Nil
  then show ?case by (simp add: mark_sent_def)
next
  case (Cons c cs)
  show ?case
  proof (cases "will_send (renewalLogs st) (users st) c")
    case False
    then have "remind_loop env cs st = (Completed, st')"
      using Cons.prems by (auto simp: will_send_def split: option.splits)
    from Cons.IH [OF this] False show ?thesis
      by (auto simp: will_send_def sent_notes_def sent_mails_def
            intro!: arg_cong2 [where f = map] arg_cong2 [where f = mark_sent])
  next
    case True
    then obtain u where u: "findHandler (users st) c = Some u"
      and na: "\<not> hasRenewalAction (renewalLogs st) (eid c) (nextRenewalDate c)"
      by (auto simp: will_send_def)
    let ?st3 = "st\<lparr>emails := emails st @ [(u_email u, eid c)],
                   notifications := notifications st @ [reminder_for u c],
                   entries := set_renewalNotificationSent (eid c) True (entries st)\<rparr>"
    have "remind_loop env cs ?st3 = (Completed, st')"
      using Cons.prems u na by (simp add: Let_def split: if_splits)
    from Cons.IH [OF this]
    have ih: "renewalLogs st' = renewalLogs st" "users st' = users st"
      "notifications st' = notifications st @ [reminder_for u c]
          @ concat (map (sent_notes (renewalLogs st) (users st)) cs)"
      "emails st' = emails st @ [(u_email u, eid c)]
          @ concat (map (sent_mails (renewalLogs st) (users st)) cs)"
      "entries st' =
         map (mark_sent (eid ` {c \<in> set cs. will_send (renewalLogs st) (users st) c}))
           (set_renewalNotificationSent (eid c) True (entries st))"
      by simp_all
    have S: "eid ` {x \<in> set (c # cs). will_send (renewalLogs st) (users st) x}
             = insert (eid c) (eid ` {x \<in> set cs. will_send (renewalLogs st) (users st) x})"
      using True by auto
    have sn: "sent_notes (renewalLogs st) (users st) c = [reminder_for u c]"
      and sm: "sent_mails (renewalLogs st) (users st) c = [(u_email u, eid c)]"
      using u na by (simp_all add: sent_notes_def sent_mails_def)
    have m: "map (mark_sent (eid ` {c \<in> set cs. will_send (renewalLogs st) (users st) c}))
               (set_renewalNotificationSent (eid c) True (entries st))
             = map (mark_sent (insert (eid c)
                      (eid ` {c \<in> set cs. will_send (renewalLogs st) (users st) c})))
                 (entries st)"
      by (simp add: set_renewalNotificationSent_def mark_sent_insert o_def)
    show ?thesis
      unfolding S using ih sn sm m by simp
  qed
qed

lemma remind_loop_nothing_to_send:
  "\<forall>c \<in> set cs. \<not> will_send (renewalLogs st) (users st) c \<Longrightarrow>
     remind_loop env cs st = (Completed, st)"
  by (induction cs) (auto simp: will_send_def split: option.splits)

lemma filter_map_unchanged:
  assumes "\<And>x. x \<in> set xs \<Longrightarrow> P (f x) \<longleftrightarrow> Q x"
    and "\<And>x. x \<in> set xs \<Longrightarrow> Q x \<Longrightarrow> f x = x"
  shows "filter P (map f xs) = filter Q xs"
  using assms by (induction xs) auto

lemma upcoming_after_run:
  assumes "distinct (map eid es)"
  shows "upcomingRenewals env
           (map (mark_sent (eid ` {c \<in> set (upcomingRenewals env es). will_send logs us c})) es)
         = filter (\<lambda>x. reminder_due env x \<and> \<not> will_send logs us x) es"
proof -
  let ?S = "eid ` {c \<in> set (upcomingRenewals env es). will_send logs us c}"
  have inj: "inj_on eid (set es)"
    using assms by (simp add: distinct_map)
  have mem: "eid x \<in> ?S \<longleftrightarrow> reminder_due env x \<and> will_send logs us x" if "x \<in> set es" for x
  proof
    assume "eid x \<in> ?S"
    then obtain c where c: "c \<in> set es" "reminder_due env c" "will_send logs us c" "eid x = eid c"
      by (auto simp: upcomingRenewals_def)
    then have "x = c" using inj that by (auto dest: inj_onD)
    then show "reminder_due env x \<and> will_send logs us x" using c by simp
  next
    assume "reminder_due env x \<and> will_send logs us x"
    then show "eid x \<in> ?S" using that by (auto simp: upcomingRenewals_def)
  qed
  have a: "reminder_due env (mark_sent ?S x) \<longleftrightarrow> reminder_due env x \<and> \<not> will_send logs us x"
    if "x \<in> set es" for x
    using mem [OF that] by (auto simp: mark_sent_def reminder_due_def)
  have b: "mark_sent ?S x = x" if "x \<in> set es" "reminder_due env x \<and> \<not> will_send logs us x" for x
    using mem [OF that(1)] that(2) by (auto simp: mark_sent_def)
  have "filter (reminder_due env) (map (mark_sent ?S) es)
        = filter (\<lambda>x. reminder_due env x \<and> \<not> will_send logs us x) es"
    by (rule filter_map_unchanged) (use a b in auto)
  then show ?thesis
    by (simp add: upcomingRenewals_def)
qed

lemma rerun_sends_nothing:
  assumes "distinct (map eid (entries st))"
    and "runRenewalRemindersOnce env st = (Completed, st')"
  shows "runRenewalRemindersOnce env st' = (Completed, st')"
proof -
  note r = remind_loop_completed [OF assms(2) [unfolded runRenewalRemindersOnce_def]]
  have "upcomingRenewals env (entries st')
        = filter (\<lambda>x. reminder_due env x \<and> \<not> will_send (renewalLogs st) (users st) x) (entries st)"
    using r upcoming_after_run [OF assms(1)] by simp
  moreover have "\<forall>c \<in> set (filter (\<lambda>x. reminder_due env x
                      \<and> \<not> will_send (renewalLogs st) (users st) x) (entries st)).
                   \<not> will_send (renewalLogs st') (users st') c"
    using r by simp
  ultimately show ?thesis
    unfolding runRenewalRemindersOnce_def by (simp add: remind_loop_nothing_to_send)
qed

lemma concat_other_ids:
  "i \<notin> eid ` set cs \<Longrightarrow> concat (map (\<lambda>c. if eid c = i then g c else []) cs) = []"
  by (induction cs) auto

lemma concat_own_id:
  "distinct (map eid cs) \<Longrightarrow> e \<in> set cs \<Longrightarrow>
     concat (map (\<lambda>c. if eid c = eid e then g c else []) cs) = g e"
  by (induction cs) (auto simp: concat_other_ids)

lemma filter_concat_by_id:
  assumes "\<And>c n. n \<in> set (g c) \<Longrightarrow> key n = eid c"
  shows "filter (\<lambda>n. key n = i) (concat (map g cs))
         = concat (map (\<lambda>c. if eid c = i then g c else []) cs)"
proof (induction cs)
  case Nil
  then show ?case by simp
next
  case (Cons c cs)
  have "filter (\<lambda>n. key n = i) (g c) = (if eid c = i then g c else [])"
    using assms [of _ c] by (auto simp: filter_id_conv filter_empty_conv)
  then show ?case using Cons.IH by simp
qed

lemma sent_notes_key: "n \<in> set (sent_notes logs us c) \<Longrightarrow> n_relatedEntry n = eid c"
  by (auto simp: sent_notes_def reminder_for_def split: if_splits option.splits)

lemma sent_mails_key: "m \<in> set (sent_mails logs us c) \<Longrightarrow> snd m = eid c"
  by (auto simp: sent_mails_def split: if_splits option.splits)

lemma filter_set_flag_other:
  "i \<noteq> j \<Longrightarrow>
     filter (\<lambda>x. eid x = i) (set_renewalNotificationSent j v es) = filter (\<lambda>x. eid x = i) es"
proof (induction es)
  case Nil
  show ?case by (simp add: set_renewalNotificationSent_def)
next
  case (Cons a es)
  have "set_renewalNotificationSent j v (a # es) =
        (if eid a = j then a\<lparr>renewalNotificationSent := v\<rparr> else a)
          # set_renewalNotificationSent j v es"
    by (simp add: set_renewalNotificationSent_def)
  then show ?case using Cons by (cases "eid a = j") simp_all
qed

lemma remind_loop_skips:
  assumes "\<forall>c \<in> set cs. eid c = i \<longrightarrow> hasRenewalAction (renewalLogs st) i (nextRenewalDate c)"
    and "remind_loop env cs st = (out, st')"
  shows "filter (\<lambda>n. n_relatedEntry n = i) (notifications st')
           = filter (\<lambda>n. n_relatedEntry n = i) (notifications st)
       \<and> filter (\<lambda>m. snd m = i) (emails st') = filter (\<lambda>m. snd m = i) (emails st)
       \<and> filter (\<lambda>x. eid x = i) (entries st') = filter (\<lambda>x. eid x = i) (entries st)"
  using assms
proof (induction cs arbitrary: st)
  case Nil
  then show ?case by simp
next
  case (Cons c cs)
  show ?case
  proof (cases "will_send (renewalLogs st) (users st) c")
    case False
    then have "remind_loop env cs st = (out, st')"
      using Cons.prems(2) by (auto simp: will_send_def split: option.splits)
    then show ?thesis using Cons.IH [of st] Cons.prems(1) by simp
  next
    case True
    then obtain u where u: "findHandler (users st) c = Some u"
      and na: "\<not> hasRenewalAction (renewalLogs st) (eid c) (nextRenewalDate c)"
      by (auto simp: will_send_def)
    have ne: "i \<noteq> eid c"
      using Cons.prems(1) na by auto
    let ?st3 = "st\<lparr>emails := emails st @ [(u_email u, eid c)],
                   notifications := notifications st @ [reminder_for u c],
                   entries := set_renewalNotificationSent (eid c) True (entries st)\<rparr>"
    consider (fault) "fault_at env (eid c) \<noteq> None" | (ok) "fault_at env (eid c) = None"
      by blast
    then show ?thesis
    proof cases
      case fault
      then obtain f where f: "fault_at env (eid c) = Some f" by auto
      show ?thesis
        using Cons.prems(2) u na ne f
        by (cases f) (auto simp: Let_def reminder_for_def)
    next
      case ok
      then have run: "remind_loop env cs ?st3 = (out, st')"
        using Cons.prems(2) u na by (simp add: Let_def)
      have "\<forall>c \<in> set cs. eid c = i \<longrightarrow> hasRenewalAction (renewalLogs ?st3) i (nextRenewalDate c)"
        using Cons.prems(1) by simp
      from Cons.IH [OF this run] ne show ?thesis
        by (simp add: reminder_for_def filter_set_flag_other)
    qed
  qed
qed

text \<open>
  C4: in a store with distinct \<^verbatim>\<open>_id\<close>s, (a) when a run of the reminder job
  completes, every Active, Accepted entry whose renewal date lies on the
  target day, whose flag is unset, whose handler resolves to a user and for
  which no renewal action is logged gets exactly one notification and one
  email, and its flag is set; (b) running the job again on the resulting state
  completes and changes nothing, so no further notification is sent; (c) an
  entry for which a renewal action is logged for its current renewal date is
  left unchanged and receives no notification or email, however the run ends.
\<close>

theorem C4_reminder_job_idempotent:
  assumes "distinct (map eid (entries st))"
  shows "(runRenewalRemindersOnce env st = (Completed, st')
          \<and> e \<in> set (entries st) \<and> status e = JStr ''Active'' \<and> entryStatus e = ''Accepted''
          \<and> in_target_day (now env) (reminderDays env) (nextRenewalDate e)
          \<and> \<not> renewalNotificationSent e
          \<and> findHandler (users st) e = Some u
          \<and> \<not> hasRenewalAction (renewalLogs st) (eid e) (nextRenewalDate e) \<longrightarrow>
            filter (\<lambda>n. n_relatedEntry n = eid e) (notifications st')
              = filter (\<lambda>n. n_relatedEntry n = eid e) (notifications st) @ [reminder_for u e]
            \<and> filter (\<lambda>m. snd m = eid e) (emails st')
              = filter (\<lambda>m. snd m = eid e) (emails st) @ [(u_email u, eid e)]
            \<and> e\<lparr>renewalNotificationSent := True\<rparr> \<in> set (entries st'))
       \<and> (runRenewalRemindersOnce env st = (Completed, st') \<longrightarrow>
            runRenewalRemindersOnce env st' = (Completed, st'))
       \<and> (runRenewalRemindersOnce env st = (out, st'')
          \<and> x \<in> set (entries st)
          \<and> hasRenewalAction (renewalLogs st) (eid x) (nextRenewalDate x) \<longrightarrow>
            x \<in> set (entries st'')
            \<and> filter (\<lambda>n. n_relatedEntry n = eid x) (notifications st'')
              = filter (\<lambda>n. n_relatedEntry n = eid x) (notifications st)
            \<and> filter (\<lambda>m. snd m = eid x) (emails st'')
              = filter (\<lambda>m. snd m = eid x) (emails st))"
proof (intro conjI impI)
  assume h: "runRenewalRemindersOnce env st = (Completed, st')
          \<and> e \<in> set (entries st) \<and> status e = JStr ''Active'' \<and> entryStatus e = ''Accepted''
          \<and> in_target_day (now env) (reminderDays env) (nextRenewalDate e)
          \<and> \<not> renewalNotificationSent e
          \<and> findHandler (users st) e = Some u
          \<and> \<not> hasRenewalAction (renewalLogs st) (eid e) (nextRenewalDate e)"
  let ?cs = "upcomingRenewals env (entries st)"
  let ?logs = "renewalLogs st" and ?us = "users st"
  have run: "remind_loop env ?cs st = (Completed, st')"
    using h by (simp add: runRenewalRemindersOnce_def)
  note r = remind_loop_completed [OF run]
  have e_cs: "e \<in> set ?cs"
    using h by (simp add: upcomingRenewals_def reminder_due_def)
  have dcs: "distinct (map eid ?cs)"
    unfolding upcomingRenewals_def using assms by (rule distinct_map_filter)
  have ws: "will_send ?logs ?us e"
    using h by (simp add: will_send_def)
  have notes_e: "sent_notes ?logs ?us e = [reminder_for u e]"
    and mails_e: "sent_mails ?logs ?us e = [(u_email u, eid e)]"
    using h by (simp_all add: sent_notes_def sent_mails_def)
  have "filter (\<lambda>n. n_relatedEntry n = eid e) (concat (map (sent_notes ?logs ?us) ?cs))
        = sent_notes ?logs ?us e"
    using filter_concat_by_id [of "sent_notes ?logs ?us" n_relatedEntry "eid e" ?cs]
      concat_own_id [OF dcs e_cs, of "sent_notes ?logs ?us"] sent_notes_key
    by simp
  then show "filter (\<lambda>n. n_relatedEntry n = eid e) (notifications st')
              = filter (\<lambda>n. n_relatedEntry n = eid e) (notifications st) @ [reminder_for u e]"
    using r notes_e by simp
  have "filter (\<lambda>m. snd m = eid e) (concat (map (sent_mails ?logs ?us) ?cs))
        = sent_mails ?logs ?us e"
    using filter_concat_by_id [of "sent_mails ?logs ?us" snd "eid e" ?cs]
      concat_own_id [OF dcs e_cs, of "sent_mails ?logs ?us"] sent_mails_key
    by simp
  then show "filter (\<lambda>m. snd m = eid e) (emails st')
              = filter (\<lambda>m. snd m = eid e) (emails st) @ [(u_email u, eid e)]"
    using r mails_e by simp
  have "eid e \<in> eid ` {c \<in> set ?cs. will_send ?logs ?us c}"
    using e_cs ws by auto
  then have "mark_sent (eid ` {c \<in> set ?cs. will_send ?logs ?us c}) e
             = e\<lparr>renewalNotificationSent := True\<rparr>"
    by (simp add: mark_sent_def)
  then show "e\<lparr>renewalNotificationSent := True\<rparr> \<in> set (entries st')"
    using r h by (metis (no_types, lifting) image_eqI list.set_map)
next
  assume "runRenewalRemindersOnce env st = (Completed, st')"
  with assms show "runRenewalRemindersOnce env st' = (Completed, st')"
    by (rule rerun_sends_nothing)
next
  assume h: "runRenewalRemindersOnce env st = (out, st'')
          \<and> x \<in> set (entries st)
          \<and> hasRenewalAction (renewalLogs st) (eid x) (nextRenewalDate x)"
  have inj: "inj_on eid (set (entries st))"
    using assms by (simp add: distinct_map)
  have "\<forall>c \<in> set (upcomingRenewals env (entries st)).
          eid c = eid x \<longrightarrow> hasRenewalAction (renewalLogs st) (eid x) (nextRenewalDate c)"
  proof (intro ballI impI)
    fix c assume "c \<in> set (upcomingRenewals env (entries st))" "eid c = eid x"
    then have "c = x" using inj h by (auto simp: upcomingRenewals_def dest: inj_onD)
    then show "hasRenewalAction (renewalLogs st) (eid x) (nextRenewalDate c)" using h by simp
  qed
  moreover have "remind_loop env (upcomingRenewals env (entries st)) st = (out, st'')"
    using h by (simp add: runRenewalRemindersOnce_def)
  ultimately have k: "filter (\<lambda>n. n_relatedEntry n = eid x) (notifications st'')
           = filter (\<lambda>n. n_relatedEntry n = eid x) (notifications st)
       \<and> filter (\<lambda>m. snd m = eid x) (emails st'') = filter (\<lambda>m. snd m = eid x) (emails st)
       \<and> filter (\<lambda>y. eid y = eid x) (entries st'') = filter (\<lambda>y. eid y = eid x) (entries st)"
    by (rule remind_loop_skips)
  have "x \<in> set (filter (\<lambda>y. eid y = eid x) (entries st))"
    using h by simp
  then have "x \<in> set (filter (\<lambda>y. eid y = eid x) (entries st''))"
    using k by simp
  then show "x \<in> set (entries st'')" by simp
  show "filter (\<lambda>n. n_relatedEntry n = eid x) (notifications st'')
              = filter (\<lambda>n. n_relatedEntry n = eid x) (notifications st)"
    using k by simp
  show "filter (\<lambda>m. snd m = eid x) (emails st'')
              = filter (\<lambda>m. snd m = eid x) (emails st)"
    using k by simp
qed

lemma sample_run: "runRenewalRemindersOnce sample_cron_env sample_state = (Completed, reminded_state)"
  by code_simp

theorem C4_reminder_job_idempotent_witness:
  "distinct (map eid (entries sample_state))
   \<and> runRenewalRemindersOnce sample_cron_env sample_state = (Completed, reminded_state)
   \<and> due_entry \<in> set (entries sample_state)
   \<and> status due_entry = JStr ''Active'' \<and> entryStatus due_entry = ''Accepted''
   \<and> in_target_day (now sample_cron_env) (reminderDays sample_cron_env) (nextRenewalDate due_entry)
   \<and> \<not> renewalNotificationSent due_entry
   \<and> findHandler (users sample_state) due_entry = Some handler_user
   \<and> \<not> hasRenewalAction (renewalLogs sample_state) (eid due_entry) (nextRenewalDate due_entry)
   \<and> notifications reminded_state = [reminder_for handler_user due_entry]
   \<and> emails reminded_state = [(u_email handler_user, eid due_entry)]
   \<and> due_entry\<lparr>renewalNotificationSent := True\<rparr> \<in> set (entries reminded_state)
   \<and> runRenewalRemindersOnce sample_cron_env reminded_state = (Completed, reminded_state)
   \<and> logged_entry \<in> set (entries sample_state)
   \<and> hasRenewalAction (renewalLogs sample_state) (eid logged_entry) (nextRenewalDate logged_entry)
   \<and> logged_entry \<in> set (entries reminded_state)"
proof -
  have d: "distinct (map eid (entries sample_state))"
    by code_simp
  have a: "due_entry \<in> set (entries sample_state)" "logged_entry \<in> set (entries sample_state)"
    by (simp_all add: sample_state_def)
  have b: "status due_entry = JStr ''Active''" "entryStatus due_entry = ''Accepted''"
    "\<not> renewalNotificationSent due_entry"
    by (simp_all add: due_entry_def plain_doc_def)
  have c: "in_target_day (now sample_cron_env) (reminderDays sample_cron_env)
             (nextRenewalDate due_entry)"
    by code_simp
  have f: "findHandler (users sample_state) due_entry = Some handler_user"
    by code_simp
  have g: "\<not> hasRenewalAction (renewalLogs sample_state) (eid due_entry) (nextRenewalDate due_entry)"
    by code_simp
  have h: "hasRenewalAction (renewalLogs sample_state) (eid logged_entry)
             (nextRenewalDate logged_entry)"
    by code_simp
  have n: "notifications reminded_state = [reminder_for handler_user due_entry]"
    "emails reminded_state = [(u_email handler_user, eid due_entry)]"
    by (simp_all add: reminded_state_def sample_state_def handler_user_def due_entry_def)
  have m: "due_entry\<lparr>renewalNotificationSent := True\<rparr> \<in> set (entries reminded_state)"
    by (simp add: reminded_state_def)
  note t = C4_reminder_job_idempotent [OF d, where env = sample_cron_env and st' = reminded_state
      and e = due_entry and u = handler_user and out = Completed and st'' = reminded_state
      and x = logged_entry]
  have r: "runRenewalRemindersOnce sample_cron_env reminded_state = (Completed, reminded_state)"
    using t sample_run by blast
  have l: "logged_entry \<in> set (entries reminded_state)"
    using t sample_run a h by blast
  show ?thesis
    using d sample_run a b c f g h n m r l by simp
qed

subsection \<open>Theorems about the rollover job\<close>

text \<open>
  C3 (the code at the failing input): a Monthly entry whose renewal date is
  31 January 2025 and whose reminder flag is set is rolled over, on
  5 February 2025, to 3 March 2025: one month later would be a day of
  February (the 28th is 1740700800000).
\<close>

theorem C3_month_end_rollover_overflows:
  "civil_from_days (1738281600000 div msPerDay) = (2025, 0, 31)
   \<and> runRenewalFlagResetOnce 1738713600000 [monthly_entry] =
       [monthly_entry\<lparr>nextRenewalDate := Some 1740960000000, renewalNotificationSent := False\<rparr>]
   \<and> civil_from_days (1740960000000 div msPerDay) = (2025, 2, 3)
   \<and> Date_UTC 2025 1 28 = Some 1740700800000"
proof -
  have a: "civil_from_days (1738281600000 div msPerDay) = (2025, 0, 31)"
    by code_simp
  have b: "runRenewalFlagResetOnce 1738713600000 [monthly_entry] =
       [monthly_entry\<lparr>nextRenewalDate := Some 1740960000000, renewalNotificationSent := False\<rparr>]"
    by code_simp
  have c: "civil_from_days (1740960000000 div msPerDay) = (2025, 2, 3)"
    by code_simp
  have d: "Date_UTC 2025 1 28 = Some 1740700800000"
    by code_simp
  show ?thesis using a b c d by simp
qed

lemma updateOne_distinct:
  "distinct (map eid es) \<Longrightarrow> updateOne i f es = map (\<lambda>e. if eid e = i then f e else e) es"
proof (induction es)
  case Nil
  show ?case by simp
next
  case (Cons a es)
  show ?case
  proof (cases "eid a = i")
    case True
    then have "i \<notin> eid ` set es" using Cons.prems by auto
    then have "map (\<lambda>e. if eid e = i then f e else e) es = es"
      by (intro map_idI) auto
    then show ?thesis using True by simp
  next
    case False
    then show ?thesis using Cons by simp
  qed
qed

lemma bulkWrite_distinct:
  "distinct (map eid es) \<Longrightarrow> distinct (map fst ops) \<Longrightarrow>
     bulkWrite ops es =
       map (\<lambda>e. case map_of ops (eid e) of None \<Rightarrow> e | Some d \<Rightarrow> roll d e) es"
proof (induction ops arbitrary: es)
  case Nil
  show ?case by (simp add: bulkWrite_def)
next
  case (Cons op ops)
  obtain i d where op: "op = (i, d)" by (cases op)
  let ?es1 = "map (\<lambda>e. if eid e = i then roll d e else e) es"
  have ids: "map eid ?es1 = map eid es"
    by (simp add: roll_def o_def if_distrib cong: if_cong)
  have step: "bulkWrite (op # ops) es = bulkWrite ops ?es1"
    using updateOne_distinct [OF Cons.prems(1), of i "roll d"]
    by (simp add: bulkWrite_def op)
  have ni: "map_of ops i = None"
    using Cons.prems(2) op by (simp add: map_of_eq_None_iff)
  have d1: "distinct (map eid ?es1)"
    unfolding ids by (rule Cons.prems(1))
  have d2: "distinct (map fst ops)"
    using Cons.prems(2) by simp
  have "bulkWrite ops ?es1 =
          map (\<lambda>e. case map_of ops (eid e) of None \<Rightarrow> e | Some d \<Rightarrow> roll d e) ?es1"
    using d1 d2 by (rule Cons.IH)
  also have "\<dots> = map (\<lambda>e. case map_of (op # ops) (eid e) of None \<Rightarrow> e | Some d \<Rightarrow> roll d e) es"
    using ni by (auto simp: op roll_def)
  finally show ?case using step by simp
qed

lemma map_of_by_id:
  "distinct (map eid xs) \<Longrightarrow> e \<in> set xs \<Longrightarrow>
     map_of (map (\<lambda>x. (eid x, g x)) xs) (eid e) = Some (g e)"
  by (induction xs) (auto simp: image_iff)

lemma rollover_ops_lookup:
  assumes "distinct (map eid es)" and "e \<in> set es"
  shows "map_of (map (\<lambda>entry. (eid entry, next_date entry)) (filter P es)) (eid e)
         = (if P e then Some (next_date e) else None)"
proof (cases "P e")
  case True
  have "distinct (map eid (filter P es))"
    using assms(1) by (rule distinct_map_filter)
  moreover have "e \<in> set (filter P es)"
    using True assms(2) by simp
  ultimately show ?thesis
    using True by (simp add: map_of_by_id)
next
  case False
  have inj: "inj_on eid (set es)"
    using assms(1) by (simp add: distinct_map)
  have "eid e \<notin> eid ` set (filter P es)"
  proof
    assume "eid e \<in> eid ` set (filter P es)"
    then obtain c where "c \<in> set es" "P c" "eid c = eid e" by auto
    then have "c = e" using inj assms(2) by (auto dest: inj_onD)
    then show False using \<open>P c\<close> False by simp
  qed
  then have "map_of (map (\<lambda>entry. (eid entry, next_date entry)) (filter P es)) (eid e) = None"
    by (simp add: map_of_eq_None_iff image_image)
  then show ?thesis using False by simp
qed

lemma runRenewalFlagResetOnce_effect:
  assumes "distinct (map eid es)"
  shows "runRenewalFlagResetOnce t es =
           map (\<lambda>e. if rollover_due t e
                     then e\<lparr>nextRenewalDate := next_date e, renewalNotificationSent := False\<rparr>
                     else e) es"
proof -
  let ?ops = "map (\<lambda>entry. (eid entry, next_date entry)) (filter (rollover_due t) es)"
  have d: "distinct (map fst ?ops)"
    using assms by (simp add: o_def distinct_map_filter)
  have "bulkWrite ?ops es =
          map (\<lambda>e. case map_of ?ops (eid e) of None \<Rightarrow> e | Some d \<Rightarrow> roll d e) es"
    using assms d by (rule bulkWrite_distinct)
  also have "\<dots> = map (\<lambda>e. if rollover_due t e
                     then e\<lparr>nextRenewalDate := next_date e, renewalNotificationSent := False\<rparr>
                     else e) es"
    using rollover_ops_lookup [OF assms, of _ "rollover_due t"]
    by (intro map_cong) (auto simp: roll_def)
  finally have w: "bulkWrite ?ops es = map (\<lambda>e. if rollover_due t e
                     then e\<lparr>nextRenewalDate := next_date e, renewalNotificationSent := False\<rparr>
                     else e) es" .
  show ?thesis
  proof (cases "filter (rollover_due t) es = []")
    case True
    then have "\<forall>e \<in> set es. \<not> rollover_due t e"
      by (simp add: filter_empty_conv)
    then have "map (\<lambda>e. if rollover_due t e
                     then e\<lparr>nextRenewalDate := next_date e, renewalNotificationSent := False\<rparr>
                     else e) es = es"
      by (intro map_idI) auto
    then show ?thesis using True by (simp add: runRenewalFlagResetOnce_def)
  next
    case False
    then show ?thesis using w by (simp add: runRenewalFlagResetOnce_def)
  qed
qed

end
